theory Spec2Isabelle
  imports Main
begin

section \<open>The trace reader of the Move trace adapter (\<^verbatim>\<open>trace_utils.ts\<close>)\<close>

text \<open>
  The development embeds \<^verbatim>\<open>readTrace\<close>, \<^verbatim>\<open>processJSONLocation\<close> and
  \<^verbatim>\<open>traceValueFromJSON\<close>. Program counters, frame identifiers and variant tags are
  integers; local indices are array indices, hence naturals. A number inside a traced
  value is any JSON number: its type is the type variable \<open>'n\<close>, and the built-in
  conversion \<^verbatim>\<open>String\<close> of numbers is the argument \<open>str\<close> of every function that decodes
  a value. The alive-sentinel \<^verbatim>\<open>FRAME_LIFETIME\<close> is imported by the source from a module
  that is not part of the development, so every function that uses it takes it as its
  first argument \<open>fl\<close>.
\<close>

subsection \<open>JavaScript arrays with holes\<close>

text \<open>
  A \<^verbatim>\<open>number[]\<close> that is written by index is a list of optional numbers: a hole, and a
  read past the end, are \<^verbatim>\<open>undefined\<close>. A write past the end extends the array and
  leaves holes in between.
\<close>

definition js_get :: "'a option list \<Rightarrow> nat \<Rightarrow> 'a option" where
  "js_get xs i = (if i < length xs then xs ! i else None)"

definition js_set :: "'a option list \<Rightarrow> nat \<Rightarrow> 'a \<Rightarrow> 'a option list" where
  "js_set xs i v =
     (if i < length xs then xs[i := Some v]
      else xs @ replicate (i - length xs) None @ [Some v])"

text \<open>\<^verbatim>\<open>map.get(k) || []\<close>: an array, even an empty one, is truthy.\<close>

definition get_or_empty :: "('k \<rightharpoonup> 'a list) \<Rightarrow> 'k \<Rightarrow> 'a list" where
  "get_or_empty m k = (case m k of None \<Rightarrow> [] | Some r \<Rightarrow> r)"

subsection \<open>The JSON schema of the trace file\<close>

text \<open>
  The \<^verbatim>\<open>fields\<close> object of a compound value is the list of its properties in the order
  in which \<^verbatim>\<open>JSON.parse\<close> created them, which is the order of the document.
\<close>

datatype 'n JSONTraceValueType =
    JBoolean bool
  | JNumber 'n
  | JString string
  | JArray "'n JSONTraceValueType list"
  | JCompound "(string \<times> 'n JSONTraceValueType) list" string "string option" "int option"

record JSONTraceModule =
  address :: string
  "module_name" :: string

record JSONTraceType =
  ref_type :: "string option"
  type' :: string

record 'n JSONTraceRuntimeValue =
  "value" :: "'n JSONTraceValueType"

record 'n JSONTraceValue =
  RuntimeValue :: "'n JSONTraceRuntimeValue"

text \<open>
  An element of \<^verbatim>\<open>parameters\<close> that is \<^verbatim>\<open>null\<close> is \<open>None\<close>: the source tests
  \<^verbatim>\<open>if (value)\<close> before it uses one.
\<close>

record 'n JSONTraceFrame =
  frame_id :: int
  function_name :: string
  locals_types :: "JSONTraceType list"
  module' :: JSONTraceModule
  parameters :: "'n JSONTraceValue option list"

record 'n JSONTraceOpenFrame =
  frame :: "'n JSONTraceFrame"

record JSONTraceInstruction =
  pc :: int

text \<open>
  A location is \<^verbatim>\<open>{Local: [frameId, index]}\<close>,
  \<^verbatim>\<open>{Indexed: [{Local: [frameId, index]}, extraIndex]}\<close>, or an object with neither
  key (the source's fall-through \<^verbatim>\<open>return undefined\<close>).
\<close>

datatype JSONTraceLocation =
    Local int nat
  | Indexed int nat nat
  | OtherLocation

record 'n JSONTraceWriteEffect =
  write_location :: JSONTraceLocation
  root_value_after_write :: "'n JSONTraceValue"

record 'n JSONTraceReadEffect =
  read_location :: JSONTraceLocation
  moved :: bool
  root_value_read :: "'n JSONTraceValue"

datatype 'n JSONTraceStackEffect =
  StackEffect "'n JSONTraceRuntimeValue option" "JSONTraceLocation option"

record 'n JSONTraceEffect =
  Push :: "'n JSONTraceStackEffect option"
  Pop :: "'n JSONTraceStackEffect option"
  Write :: "'n JSONTraceWriteEffect option"
  Read :: "'n JSONTraceReadEffect option"

record JSONTraceCloseFrame =
  close_frame_id :: int

record 'n JSONTraceEvent =
  OpenFrame :: "'n JSONTraceOpenFrame option"
  Instruction :: "JSONTraceInstruction option"
  Effect :: "'n JSONTraceEffect option"
  CloseFrame :: "JSONTraceCloseFrame option"

text \<open>
  What \<^verbatim>\<open>JSON.parse(fs.readFileSync(...))\<close> gives: a syntax error, or a root object
  whose \<^verbatim>\<open>events\<close> and \<^verbatim>\<open>version\<close> may be missing.
\<close>

record 'n JSONTraceRootObject =
  root_events :: "'n JSONTraceEvent list option"
  version :: "int option"

datatype 'n parsed_file = NotJSON | Parsed "'n JSONTraceRootObject"

subsection \<open>Runtime data types\<close>

datatype RuntimeValueType =
    RString string
  | RArray "RuntimeValueType list"
  | RCompound "(string \<times> RuntimeValueType) list" string "string option" "int option"

record ModuleInfo =
  addr :: string
  name :: string

datatype TraceValue = Runtime RuntimeValueType

text \<open>
  The frame identifier of a location is the top of \<^verbatim>\<open>frameIDs\<close>, which is
  \<^verbatim>\<open>undefined\<close> (\<open>None\<close>) when no frame is open.
\<close>

datatype TraceLocation = LocLocal "int option" nat

datatype EventEffect = EffWrite TraceLocation TraceValue

datatype TraceEvent =
    EvOpenFrame int string ModuleInfo "string list" "TraceValue list"
  | EvCloseFrame int
  | EvInstruction int
  | EvEffect EventEffect

type_synonym lifetimes = "int option \<rightharpoonup> int option list"

record ITrace =
  events :: "TraceEvent list"
  localLifetimeEnds :: lifetimes

text \<open>The locals of \<^verbatim>\<open>readTrace\<close>: the result under construction and its two other tables.\<close>

record reader = ITrace +
  locaLifetimeEndsMax :: lifetimes
  frameIDs :: "int list"

datatype error = SyntaxError | TypeError

subsection \<open>\<^verbatim>\<open>traceValueFromJSON\<close>\<close>

text \<open>
  \<^verbatim>\<open>String(value)\<close> is the identity on a string and gives \<^verbatim>\<open>true\<close> or \<^verbatim>\<open>false\<close> on a
  boolean. On a number it is the parameter \<open>str\<close>. The sample traces below carry integers
  of magnitude below \<open>2 ^ 53\<close>, which \<^verbatim>\<open>JSON.parse\<close> reads exactly and \<^verbatim>\<open>String\<close> prints
  as decimal numerals; \<open>String_number\<close> is \<^verbatim>\<open>String\<close> on these and is left unspecified
  on every other integer.
\<close>

definition String_boolean :: "bool \<Rightarrow> string" where
  "String_boolean b = (if b then ''true'' else ''false'')"

definition digit :: "nat \<Rightarrow> char" where
  "digit d = ''0123456789'' ! d"

fun decimal :: "nat \<Rightarrow> string" where
  "decimal n = (if n < 10 then [digit n] else decimal (n div 10) @ [digit (n mod 10)])"

definition String_number :: "int \<Rightarrow> string" where
  "String_number i =
     (if \<bar>i\<bar> < 2 ^ 53 then
        (if i < 0 then CHR ''-'' # decimal (nat (- i)) else decimal (nat i))
      else undefined)"

text \<open>
  \<^verbatim>\<open>Object.entries\<close> enumerates the properties whose key is an array index (the
  canonical decimal numeral of an integer from 0 to \<open>2 ^ 32 - 2\<close>) first, in ascending
  numeric order, and then the other properties in the order of their creation.
\<close>

definition is_digit :: "char \<Rightarrow> bool" where
  "is_digit c = (c \<in> set ''0123456789'')"

definition digits_value :: "string \<Rightarrow> int" where
  "digits_value s = foldl (\<lambda>acc c. 10 * acc + (of_char c - 48)) 0 s"

definition is_array_index :: "string \<Rightarrow> bool" where
  "is_array_index key =
     (key \<noteq> [] \<and> list_all is_digit key \<and> (key = ''0'' \<or> hd key \<noteq> CHR ''0'') \<and>
      digits_value key < 2 ^ 32 - 1)"

definition Object_entries :: "(string \<times> 'a) list \<Rightarrow> (string \<times> 'a) list" where
  "Object_entries props =
     sort_key (\<lambda>(key, v). digits_value key) (filter (\<lambda>(key, v). is_array_index key) props) @
     filter (\<lambda>(key, v). \<not> is_array_index key) props"

function traceValueFromJSON :: "('n \<Rightarrow> string) \<Rightarrow> 'n JSONTraceValueType \<Rightarrow> RuntimeValueType" where
  "traceValueFromJSON str (JBoolean b) = RString (String_boolean b)"
| "traceValueFromJSON str (JNumber n) = RString (str n)"
| "traceValueFromJSON str (JString s) = RString s"
| "traceValueFromJSON str (JArray items) = RArray (map (traceValueFromJSON str) items)"
| "traceValueFromJSON str (JCompound flds ty variant_name variant_tag) =
     RCompound (map (\<lambda>(key, v). (key, traceValueFromJSON str v)) (Object_entries flds))
       ty variant_name variant_tag"
  by pat_completeness auto
termination
proof (relation "measure (\<lambda>(str, v). size v)")
  show "wf (measure (\<lambda>(str :: 'n \<Rightarrow> string, v). size v))"
    by simp
next
  fix str :: "'n \<Rightarrow> string" and items :: "'n JSONTraceValueType list" and x
  assume "x \<in> set items"
  then show "((str, x), str, JArray items) \<in> measure (\<lambda>(str, v). size v)"
    by (induction items) auto
next
  fix str :: "'n \<Rightarrow> string" and flds :: "(string \<times> 'n JSONTraceValueType) list"
    and ty variant_name variant_tag x key v
  assume "x \<in> set (Object_entries flds)" and "(key, v) = x"
  then have "(key, v) \<in> set flds"
    by (auto simp: Object_entries_def)
  then show "((str, v), str, JCompound flds ty variant_name variant_tag)
      \<in> measure (\<lambda>(str, v). size v)"
    by (induction flds) auto
qed

subsection \<open>\<^verbatim>\<open>processJSONLocation\<close>\<close>

definition processJSONLocation ::
  "int \<Rightarrow> JSONTraceLocation \<Rightarrow> lifetimes \<Rightarrow> int option \<Rightarrow> nat option \<times> lifetimes" where
  "processJSONLocation fl location lle currentFrameID =
     (case location of
        Local frameId localIndex \<Rightarrow>
          (let lifetimeEnds = get_or_empty lle (Some frameId)
           in (Some localIndex, lle(Some frameId \<mapsto> js_set lifetimeEnds localIndex fl)))
      | Indexed frameId localIndex extra \<Rightarrow>
          (if Some frameId = currentFrameID then
             (let lifetimeEnds = get_or_empty lle (Some frameId)
              in (Some localIndex, lle(Some frameId \<mapsto> js_set lifetimeEnds localIndex fl)))
           else (None, lle))
      | OtherLocation \<Rightarrow> (None, lle))"

subsection \<open>\<^verbatim>\<open>readTrace\<close>\<close>

text \<open>\<^verbatim>\<open>frameIDs[frameIDs.length - 1]\<close>\<close>

definition currentFrameID :: "int list \<Rightarrow> int option" where
  "currentFrameID ids = (if ids = [] then None else Some (last ids))"

text \<open>The loop over \<^verbatim>\<open>frame.parameters\<close>, from index \<open>i\<close> on.\<close>

fun param_loop ::
  "int \<Rightarrow> ('n \<Rightarrow> string) \<Rightarrow> nat \<Rightarrow> 'n JSONTraceValue option list \<Rightarrow> TraceValue list
     \<Rightarrow> int option list \<Rightarrow> TraceValue list \<times> int option list" where
  "param_loop fl str i [] paramValues lifetimeEnds = (paramValues, lifetimeEnds)"
| "param_loop fl str i (None # rest) paramValues lifetimeEnds =
     param_loop fl str (Suc i) rest paramValues lifetimeEnds"
| "param_loop fl str i (Some v # rest) paramValues lifetimeEnds =
     param_loop fl str (Suc i) rest
       (paramValues @ [Runtime (traceValueFromJSON str (value (RuntimeValue v)))])
       (js_set lifetimeEnds i fl)"

text \<open>
  The loop of the \<^verbatim>\<open>Instruction\<close> branch over the slots of \<^verbatim>\<open>lifetimeEnds\<close>, from
  index \<open>i\<close> on; it returns both arrays.
\<close>

function instr_loop ::
  "int \<Rightarrow> int \<Rightarrow> nat \<Rightarrow> int option list \<Rightarrow> int option list
     \<Rightarrow> int option list \<times> int option list" where
  "instr_loop fl p i lifetimeEnds lifetimeEndsMax =
     (if i < length lifetimeEnds then
        (if js_get lifetimeEnds i = None \<or> js_get lifetimeEnds i = Some fl then
           (if js_get lifetimeEndsMax i = None \<or> the (js_get lifetimeEndsMax i) < p then
              instr_loop fl p (Suc i) (js_set lifetimeEnds i p) (js_set lifetimeEndsMax i p)
            else instr_loop fl p (Suc i) lifetimeEnds lifetimeEndsMax)
         else instr_loop fl p (Suc i) lifetimeEnds lifetimeEndsMax)
      else (lifetimeEnds, lifetimeEndsMax))"
  by pat_completeness auto
termination
  by (relation "measure (\<lambda>(fl, p, i, le, lm). length le - i)") (auto simp: js_set_def)

text \<open>\<^verbatim>\<open>effect.Write ? effect.Write.location : effect.Read!.location\<close>\<close>

definition effect_location :: "'n JSONTraceEffect \<Rightarrow> JSONTraceLocation" where
  "effect_location effect =
     (case Write effect of
        Some w \<Rightarrow> write_location w
      | None \<Rightarrow> read_location (the (Read effect)))"

text \<open>One iteration of the loop over \<^verbatim>\<open>traceJSON.events\<close>.\<close>

definition step :: "int \<Rightarrow> ('n \<Rightarrow> string) \<Rightarrow> reader \<Rightarrow> 'n JSONTraceEvent \<Rightarrow> reader" where
  "step fl str st event =
     (case OpenFrame event of
        Some open_frame \<Rightarrow>
          (let fr = frame open_frame;
               localsTypes = map type' (locals_types fr);
               (paramValues, lifetimeEnds) =
                  param_loop fl str 0 (parameters fr) []
                    (get_or_empty (localLifetimeEnds st) (Some (frame_id fr)))
           in st\<lparr>localLifetimeEnds := (localLifetimeEnds st)(Some (frame_id fr) \<mapsto> lifetimeEnds),
                 events := events st @
                   [EvOpenFrame (frame_id fr) (function_name fr)
                      \<lparr>addr = address (module' fr), name = module_name (module' fr)\<rparr>
                      localsTypes paramValues],
                 frameIDs := frameIDs st @ [frame_id fr]\<rparr>)
      | None \<Rightarrow>
     (case CloseFrame event of
        Some close_frame \<Rightarrow>
          st\<lparr>events := events st @ [EvCloseFrame (close_frame_id close_frame)],
              frameIDs := butlast (frameIDs st)\<rparr>
      | None \<Rightarrow>
     (case Instruction event of
        Some instruction \<Rightarrow>
          (let cur = currentFrameID (frameIDs st);
               (lifetimeEnds, lifetimeEndsMax) =
                  instr_loop fl (pc instruction) 0
                    (get_or_empty (localLifetimeEnds st) cur)
                    (get_or_empty (locaLifetimeEndsMax st) cur)
           in st\<lparr>events := events st @ [EvInstruction (pc instruction)],
                 localLifetimeEnds := (localLifetimeEnds st)(cur \<mapsto> lifetimeEnds),
                 locaLifetimeEndsMax := (locaLifetimeEndsMax st)(cur \<mapsto> lifetimeEndsMax)\<rparr>)
      | None \<Rightarrow>
     (case Effect event of
        Some effect \<Rightarrow>
          (if Write effect \<noteq> None \<or> Read effect \<noteq> None then
             (let location = effect_location effect;
                  cur = currentFrameID (frameIDs st);
                  (localIndex, lle) = processJSONLocation fl location (localLifetimeEnds st) cur
              in (case localIndex of
                    None \<Rightarrow> st
                  | Some idx \<Rightarrow>
                      (case Write effect of
                         Some w \<Rightarrow>
                           st\<lparr>localLifetimeEnds := lle,
                               events := events st @
                                 [EvEffect (EffWrite (LocLocal cur idx)
                                    (Runtime (traceValueFromJSON str
                                       (value (RuntimeValue (root_value_after_write w))))))]\<rparr>
                       | None \<Rightarrow> st\<lparr>localLifetimeEnds := lle\<rparr>)))
           else st)
      | None \<Rightarrow> st))))"

text \<open>The whole loop, from the locals' state \<open>st\<close>.\<close>

fun process_events ::
  "int \<Rightarrow> ('n \<Rightarrow> string) \<Rightarrow> reader \<Rightarrow> 'n JSONTraceEvent list \<Rightarrow> reader" where
  "process_events fl str st [] = st"
| "process_events fl str st (event # rest) = process_events fl str (step fl str st event) rest"

definition init :: reader where
  "init = \<lparr>events = [], localLifetimeEnds = Map.empty,
            locaLifetimeEndsMax = Map.empty, frameIDs = []\<rparr>"

text \<open>
  \<^verbatim>\<open>JSON.parse\<close> throws a \<^verbatim>\<open>SyntaxError\<close> on text that is not JSON; iterating over a
  missing \<^verbatim>\<open>events\<close> throws a \<^verbatim>\<open>TypeError\<close>. The field \<^verbatim>\<open>version\<close> is not read.
\<close>

definition readTrace :: "int \<Rightarrow> ('n \<Rightarrow> string) \<Rightarrow> 'n parsed_file \<Rightarrow> error + ITrace" where
  "readTrace fl str file =
     (case file of
        NotJSON \<Rightarrow> Inl SyntaxError
      | Parsed traceJSON \<Rightarrow>
          (case root_events traceJSON of
             None \<Rightarrow> Inl TypeError
           | Some evs \<Rightarrow>
               (let st = process_events fl str init evs
                in Inr \<lparr>events = events st, localLifetimeEnds = localLifetimeEnds st\<rparr>)))"

subsection \<open>Reading the tables\<close>

text \<open>
  The entry of slot \<open>i\<close> in the row of frame \<open>f\<close>, in \<^verbatim>\<open>localLifetimeEnds\<close> and in
  \<^verbatim>\<open>locaLifetimeEndsMax\<close>; \<open>None\<close> is \<^verbatim>\<open>undefined\<close>.
\<close>

definition endOfLife :: "reader \<Rightarrow> int option \<Rightarrow> nat \<Rightarrow> int option" where
  "endOfLife st f i = js_get (get_or_empty (localLifetimeEnds st) f) i"

definition maxPcSeen :: "reader \<Rightarrow> int option \<Rightarrow> nat \<Rightarrow> int option" where
  "maxPcSeen st f i = js_get (get_or_empty (locaLifetimeEndsMax st) f) i"

text \<open>The frame identifier written inside a location.\<close>

definition location_frame :: "JSONTraceLocation \<Rightarrow> int option" where
  "location_frame location =
     (case location of
        Local frameId localIndex \<Rightarrow> Some frameId
      | Indexed frameId localIndex extra \<Rightarrow> Some frameId
      | OtherLocation \<Rightarrow> None)"

text \<open>
  An event touches the row of frame \<open>fid\<close> when it opens a frame with that identifier, or
  is a read or write effect whose location names it.
\<close>

definition touches :: "int \<Rightarrow> 'n JSONTraceEvent \<Rightarrow> bool" where
  "touches fid e =
     (case OpenFrame e of
        Some opf \<Rightarrow> frame_id (frame opf) = fid
      | None \<Rightarrow>
     (case CloseFrame e of
        Some cf \<Rightarrow> False
      | None \<Rightarrow>
     (case Instruction e of
        Some ins \<Rightarrow> False
      | None \<Rightarrow>
     (case Effect e of
        Some eff \<Rightarrow>
          (Write eff \<noteq> None \<or> Read eff \<noteq> None) \<and>
          location_frame (effect_location eff) = Some fid
      | None \<Rightarrow> False))))"

subsection \<open>Sample events and traces\<close>

definition no_event :: "'n JSONTraceEvent" where
  "no_event = \<lparr>OpenFrame = None, Instruction = None, Effect = None, CloseFrame = None\<rparr>"

definition no_effect :: "'n JSONTraceEffect" where
  "no_effect = \<lparr>Push = None, Pop = None, Write = None, Read = None\<rparr>"

definition json_value :: "'n JSONTraceValueType \<Rightarrow> 'n JSONTraceValue" where
  "json_value v = \<lparr>RuntimeValue = \<lparr>value = v\<rparr>\<rparr>"

definition open_frame_event :: "int \<Rightarrow> 'n JSONTraceValueType list \<Rightarrow> 'n JSONTraceEvent" where
  "open_frame_event fid params =
     no_event\<lparr>OpenFrame := Some \<lparr>frame = \<lparr>frame_id = fid, function_name = ''f'',
        locals_types = map (\<lambda>_. \<lparr>ref_type = None, type' = ''u64''\<rparr>) params,
        module' = \<lparr>address = ''0x0'', module_name = ''m''\<rparr>,
        parameters = map (\<lambda>v. Some (json_value v)) params\<rparr>\<rparr>\<rparr>"

definition instruction_event :: "int \<Rightarrow> 'n JSONTraceEvent" where
  "instruction_event p = no_event\<lparr>Instruction := Some \<lparr>pc = p\<rparr>\<rparr>"

definition write_event ::
  "JSONTraceLocation \<Rightarrow> 'n JSONTraceValueType \<Rightarrow> 'n JSONTraceEvent" where
  "write_event loc v =
     no_event\<lparr>Effect := Some (no_effect\<lparr>Write :=
        Some \<lparr>write_location = loc, root_value_after_write = json_value v\<rparr>\<rparr>)\<rparr>"

definition read_event ::
  "JSONTraceLocation \<Rightarrow> 'n JSONTraceValueType \<Rightarrow> 'n JSONTraceEvent" where
  "read_event loc v =
     no_event\<lparr>Effect := Some (no_effect\<lparr>Read :=
        Some \<lparr>read_location = loc, moved = False, root_value_read = json_value v\<rparr>\<rparr>)\<rparr>"

definition close_frame_event :: "int \<Rightarrow> 'n JSONTraceEvent" where
  "close_frame_event fid = no_event\<lparr>CloseFrame := Some \<lparr>close_frame_id = fid\<rparr>\<rparr>"

text \<open>
  A frame with one local (its parameter) and a loop body at program counters 10 to 20
  that runs three times; the local is read once, on the second pass, after the
  instruction at \<open>k\<close>.
\<close>

definition loop_trace :: "int \<Rightarrow> int JSONTraceEvent list" where
  "loop_trace k =
     [open_frame_event 1 [JNumber 7]] @
     map instruction_event [10..20] @
     map instruction_event [10..k] @ [read_event (Local 1 0) (JNumber 7)] @
     map instruction_event [k + 1..20] @
     map instruction_event [10..20] @
     [close_frame_event 1]"

text \<open>The frame \<open>f\<close> is on top and has one slot, with end of life \<open>e\<close> and maximum \<open>m\<close>.\<close>

definition one_slot :: "reader \<Rightarrow> int \<Rightarrow> int \<Rightarrow> int \<Rightarrow> bool" where
  "one_slot st f e m =
     (currentFrameID (frameIDs st) = Some f \<and>
      localLifetimeEnds st (Some f) = Some [Some e] \<and>
      locaLifetimeEndsMax st (Some f) = Some [Some m])"

text \<open>
  The trace \<^verbatim>\<open>OpenFrame(id=1, params=[42])\<close>, \<^verbatim>\<open>Instruction(pc=0)\<close>,
  \<^verbatim>\<open>Effect.Write(Local [1,0], 43)\<close>, \<^verbatim>\<open>Instruction(pc=1)\<close>, \<^verbatim>\<open>CloseFrame(id=1)\<close>.
\<close>

definition scenario_trace :: "int JSONTraceEvent list" where
  "scenario_trace =
     [open_frame_event 1 [JNumber 42], instruction_event 0,
      write_event (Local 1 0) (JNumber 43), instruction_event 1, close_frame_event 1]"

subsection \<open>Reading the result\<close>

text \<open>The canonical events that one iteration appends.\<close>

definition emitted ::
  "int \<Rightarrow> ('n \<Rightarrow> string) \<Rightarrow> reader \<Rightarrow> 'n JSONTraceEvent \<Rightarrow> TraceEvent list" where
  "emitted fl str st e = drop (length (events st)) (events (step fl str st e))"

text \<open>The canonical events of a result, when there is one.\<close>

definition result_events :: "error + ITrace \<Rightarrow> TraceEvent list option" where
  "result_events r = (case r of Inl err \<Rightarrow> None | Inr trace \<Rightarrow> Some (events trace))"

definition is_write :: "TraceEvent \<Rightarrow> bool" where
  "is_write ev = (case ev of EvEffect eff \<Rightarrow> True | _ \<Rightarrow> False)"

definition num_writes :: "TraceEvent list \<Rightarrow> nat" where
  "num_writes evs = length (filter is_write evs)"

text \<open>A raw event that reaches the \<^verbatim>\<open>Effect\<close> branch and has a \<^verbatim>\<open>Write\<close>.\<close>

definition is_write_effect :: "'n JSONTraceEvent \<Rightarrow> bool" where
  "is_write_effect e =
     (OpenFrame e = None \<and> CloseFrame e = None \<and> Instruction e = None \<and>
      (case Effect e of None \<Rightarrow> False | Some eff \<Rightarrow> Write eff \<noteq> None))"

definition num_write_effects :: "'n JSONTraceEvent list \<Rightarrow> nat" where
  "num_write_effects es = length (filter is_write_effect es)"

text \<open>
  Whether a location resolves against the current frame: a \<^verbatim>\<open>Local\<close> always does, an
  \<^verbatim>\<open>Indexed\<close> one when its base frame is the current frame, any other location never.
\<close>

definition resolves :: "JSONTraceLocation \<Rightarrow> int option \<Rightarrow> bool" where
  "resolves location cur =
     (case location of
        Local frameId localIndex \<Rightarrow> True
      | Indexed frameId localIndex extra \<Rightarrow> Some frameId = cur
      | OtherLocation \<Rightarrow> False)"

text \<open>The stack of open frames after an event: a push, a pop, or no change.\<close>

definition next_frameIDs :: "int list \<Rightarrow> 'n JSONTraceEvent \<Rightarrow> int list" where
  "next_frameIDs ids e =
     (case OpenFrame e of
        Some opf \<Rightarrow> ids @ [frame_id (frame opf)]
      | None \<Rightarrow> (case CloseFrame e of Some cf \<Rightarrow> butlast ids | None \<Rightarrow> ids))"

text \<open>A \<^verbatim>\<open>Write\<close> effect whose location does not resolve when the stack is \<open>ids\<close>.\<close>

definition is_dropped_write :: "int list \<Rightarrow> 'n JSONTraceEvent \<Rightarrow> bool" where
  "is_dropped_write ids e =
     (OpenFrame e = None \<and> CloseFrame e = None \<and> Instruction e = None \<and>
      (case Effect e of
         None \<Rightarrow> False
       | Some eff \<Rightarrow> Write eff \<noteq> None \<and> \<not> resolves (effect_location eff) (currentFrameID ids)))"

text \<open>The number of such effects in a trace that starts with the stack \<open>ids\<close>.\<close>

fun dropped_writes :: "int list \<Rightarrow> 'n JSONTraceEvent list \<Rightarrow> nat" where
  "dropped_writes ids [] = 0"
| "dropped_writes ids (e # es) =
     (if is_dropped_write ids e then 1 else 0) + dropped_writes (next_frameIDs ids e) es"

section \<open>Auxiliary facts\<close>

subsection \<open>Arrays\<close>

lemma js_get_js_set: "js_get (js_set xs i v) j = (if j = i then Some v else js_get xs j)"
  by (auto simp: js_get_def js_set_def nth_append)

lemma length_js_set: "i < length xs \<Longrightarrow> length (js_set xs i v) = length xs"
  by (simp add: js_set_def)

subsection \<open>The loop over the slots\<close>

declare instr_loop.simps [simp del]

lemma instr_loop_spec:
  "instr_loop fl p k le lm = (le', lm') \<Longrightarrow>
     length le' = length le \<and>
     (\<forall>i. js_get le' i =
        (if k \<le> i \<and> i < length le \<and> (js_get le i = None \<or> js_get le i = Some fl) \<and>
            (js_get lm i = None \<or> the (js_get lm i) < p)
         then Some p else js_get le i)) \<and>
     (\<forall>i. js_get lm' i =
        (if k \<le> i \<and> i < length le \<and> (js_get le i = None \<or> js_get le i = Some fl) \<and>
            (js_get lm i = None \<or> the (js_get lm i) < p)
         then Some p else js_get lm i))"
proof (induction fl p k le lm arbitrary: le' lm' rule: instr_loop.induct)
  case (1 fl p i le lm)
  show ?case
  proof (cases "i < length le")
    case False
    with "1.prems" show ?thesis
      by (auto simp: instr_loop.simps [of fl p i])
  next
    case inb: True
    show ?thesis
    proof (cases "(js_get le i = None \<or> js_get le i = Some fl) \<and>
            (js_get lm i = None \<or> the (js_get lm i) < p)")
      case True
      with inb "1.prems" have run: "instr_loop fl p (Suc i) (js_set le i p) (js_set lm i p) = (le', lm')"
        by (simp add: instr_loop.simps [of fl p i] split: if_splits)
      from True inb have ih: "length le' = length (js_set le i p) \<and>
     (\<forall>j. js_get le' j =
        (if Suc i \<le> j \<and> j < length (js_set le i p) \<and> (js_get (js_set le i p) j = None \<or> js_get (js_set le i p) j = Some fl) \<and>
            (js_get (js_set lm i p) j = None \<or> the (js_get (js_set lm i p) j) < p)
         then Some p else js_get (js_set le i p) j)) \<and>
     (\<forall>j. js_get lm' j =
        (if Suc i \<le> j \<and> j < length (js_set le i p) \<and> (js_get (js_set le i p) j = None \<or> js_get (js_set le i p) j = Some fl) \<and>
            (js_get (js_set lm i p) j = None \<or> the (js_get (js_set lm i p) j) < p)
         then Some p else js_get (js_set lm i p) j))"
        using "1.IH"(1) [OF inb _ _ run] by blast
      show ?thesis
        using ih inb True by (auto simp: js_get_js_set length_js_set Suc_le_eq le_less)
    next
      case False
      with inb "1.prems" have run: "instr_loop fl p (Suc i) le lm = (le', lm')"
        by (auto simp add: instr_loop.simps [of fl p i] split: if_splits)
      have ih: "length le' = length le \<and>
     (\<forall>j. js_get le' j =
        (if Suc i \<le> j \<and> j < length le \<and> (js_get le j = None \<or> js_get le j = Some fl) \<and>
            (js_get lm j = None \<or> the (js_get lm j) < p)
         then Some p else js_get le j)) \<and>
     (\<forall>j. js_get lm' j =
        (if Suc i \<le> j \<and> j < length le \<and> (js_get le j = None \<or> js_get le j = Some fl) \<and>
            (js_get lm j = None \<or> the (js_get lm j) < p)
         then Some p else js_get lm j))"
      proof (cases "js_get le i = None \<or> js_get le i = Some fl")
        case live: True
        with False have "\<not> (js_get lm i = None \<or> the (js_get lm i) < p)"
          by blast
        from "1.IH"(2) [OF inb live this run] show ?thesis .
      next
        case dead: False
        from "1.IH"(3) [OF inb dead run] show ?thesis .
      qed
      show ?thesis
        using ih inb False by (auto simp: Suc_le_eq le_less)
    qed
  qed
qed

subsection \<open>The branches of one iteration\<close>

lemma step_OpenFrame:
  "OpenFrame e = Some opf \<Longrightarrow>
   step fl str st e =
     (case param_loop fl str 0 (parameters (frame opf)) []
             (get_or_empty (localLifetimeEnds st) (Some (frame_id (frame opf)))) of
        (paramValues, lifetimeEnds) \<Rightarrow>
          st\<lparr>localLifetimeEnds :=
                (localLifetimeEnds st)(Some (frame_id (frame opf)) \<mapsto> lifetimeEnds),
              events := events st @
                [EvOpenFrame (frame_id (frame opf)) (function_name (frame opf))
                   \<lparr>addr = address (module' (frame opf)),
                      name = module_name (module' (frame opf))\<rparr>
                   (map type' (locals_types (frame opf))) paramValues],
              frameIDs := frameIDs st @ [frame_id (frame opf)]\<rparr>)"
  by (simp add: step_def Let_def)

lemma step_CloseFrame:
  "OpenFrame e = None \<Longrightarrow> CloseFrame e = Some cf \<Longrightarrow>
   step fl str st e =
     st\<lparr>events := events st @ [EvCloseFrame (close_frame_id cf)],
        frameIDs := butlast (frameIDs st)\<rparr>"
  by (simp add: step_def)

lemma step_Instruction:
  "OpenFrame e = None \<Longrightarrow> CloseFrame e = None \<Longrightarrow> Instruction e = Some ins \<Longrightarrow>
   step fl str st e =
     (case instr_loop fl (pc ins) 0
             (get_or_empty (localLifetimeEnds st) (currentFrameID (frameIDs st)))
             (get_or_empty (locaLifetimeEndsMax st) (currentFrameID (frameIDs st))) of
        (lifetimeEnds, lifetimeEndsMax) \<Rightarrow>
          st\<lparr>events := events st @ [EvInstruction (pc ins)],
              localLifetimeEnds :=
                (localLifetimeEnds st)(currentFrameID (frameIDs st) \<mapsto> lifetimeEnds),
              locaLifetimeEndsMax :=
                (locaLifetimeEndsMax st)(currentFrameID (frameIDs st) \<mapsto> lifetimeEndsMax)\<rparr>)"
  by (simp add: step_def Let_def)

lemma step_Effect:
  "OpenFrame e = None \<Longrightarrow> CloseFrame e = None \<Longrightarrow> Instruction e = None \<Longrightarrow>
   Effect e = Some eff \<Longrightarrow> Write eff \<noteq> None \<or> Read eff \<noteq> None \<Longrightarrow>
   step fl str st e =
     (case processJSONLocation fl (effect_location eff) (localLifetimeEnds st)
             (currentFrameID (frameIDs st)) of
        (None, lle) \<Rightarrow> st
      | (Some idx, lle) \<Rightarrow>
          (case Write eff of
             Some w \<Rightarrow>
               st\<lparr>localLifetimeEnds := lle,
                   events := events st @
                     [EvEffect (EffWrite (LocLocal (currentFrameID (frameIDs st)) idx)
                        (Runtime (traceValueFromJSON str
                           (value (RuntimeValue (root_value_after_write w))))))]\<rparr>
           | None \<Rightarrow> st\<lparr>localLifetimeEnds := lle\<rparr>))"
  by (simp add: step_def Let_def effect_location_def split: option.splits prod.splits)

lemma step_Effect_other:
  "OpenFrame e = None \<Longrightarrow> CloseFrame e = None \<Longrightarrow> Instruction e = None \<Longrightarrow>
   Effect e = Some eff \<Longrightarrow> Write eff = None \<Longrightarrow> Read eff = None \<Longrightarrow>
   step fl str st e = st"
  by (simp add: step_def)

lemma step_unknown:
  "OpenFrame e = None \<Longrightarrow> CloseFrame e = None \<Longrightarrow> Instruction e = None \<Longrightarrow>
   Effect e = None \<Longrightarrow> step fl str st e = st"
  by (simp add: step_def)

lemma process_events_append:
  "process_events fl str st (xs @ ys) = process_events fl str (process_events fl str st xs) ys"
  by (induction xs arbitrary: st) simp_all

subsection \<open>Rows that an event leaves alone\<close>

lemma processJSONLocation_other_row:
  "location_frame location \<noteq> Some g \<Longrightarrow>
   snd (processJSONLocation fl location lle cur) (Some g) = lle (Some g)"
  by (cases location) (auto simp: processJSONLocation_def location_frame_def Let_def)

lemma currentFrameID_in_set: "currentFrameID ids = Some g \<Longrightarrow> g \<in> set ids"
  by (auto simp: currentFrameID_def split: if_splits)

lemma step_untouched:
  assumes "fid \<notin> set (frameIDs st)" and "\<not> touches fid e"
  shows "localLifetimeEnds (step fl str st e) (Some fid) = localLifetimeEnds st (Some fid) \<and>
         fid \<notin> set (frameIDs (step fl str st e))"
proof (cases "OpenFrame e")
  case (Some opf)
  with assms show ?thesis
    by (simp add: step_OpenFrame touches_def split: prod.splits)
next
  case no_open: None
  show ?thesis
  proof (cases "CloseFrame e")
    case (Some cf)
    with no_open assms(1) show ?thesis
      by (auto simp: step_CloseFrame dest: in_set_butlastD)
  next
    case no_close: None
    show ?thesis
    proof (cases "Instruction e")
      case (Some ins)
      have "currentFrameID (frameIDs st) \<noteq> Some fid"
        using assms(1) currentFrameID_in_set by blast
      with no_open no_close Some assms(1) show ?thesis
        by (simp add: step_Instruction split: prod.splits)
    next
      case no_instr: None
      show ?thesis
      proof (cases "Effect e")
        case None
        with no_open no_close no_instr assms(1) show ?thesis
          by (simp add: step_unknown)
      next
        case (Some eff)
        show ?thesis
        proof (cases "Write eff \<noteq> None \<or> Read eff \<noteq> None")
          case False
          with no_open no_close no_instr Some assms(1) show ?thesis
            by (simp add: step_Effect_other)
        next
          case True
          with no_open no_close no_instr Some assms(2)
          have "location_frame (effect_location eff) \<noteq> Some fid"
            by (auto simp: touches_def)
          from processJSONLocation_other_row [OF this]
          have "snd (processJSONLocation fl (effect_location eff) (localLifetimeEnds st)
                  (currentFrameID (frameIDs st))) (Some fid) = localLifetimeEnds st (Some fid)" .
          with no_open no_close no_instr Some True assms(1) show ?thesis
            by (auto simp: step_Effect split: prod.splits option.splits)
        qed
      qed
    qed
  qed
qed

lemma process_events_untouched:
  "fid \<notin> set (frameIDs st) \<Longrightarrow> \<forall>e\<in>set es. \<not> touches fid e \<Longrightarrow>
   localLifetimeEnds (process_events fl str st es) (Some fid) = localLifetimeEnds st (Some fid)"
proof (induction es arbitrary: st)
  case Nil
  show ?case by simp
next
  case (Cons e es)
  from Cons.prems have "localLifetimeEnds (step fl str st e) (Some fid) = localLifetimeEnds st (Some fid)"
    and "fid \<notin> set (frameIDs (step fl str st e))"
    using step_untouched [of fid st e fl str] by simp_all
  with Cons show ?case
    by simp
qed

subsection \<open>A frame with one slot\<close>

lemma step_instruction_event:
  "step fl str st (instruction_event p) =
     (case instr_loop fl p 0
             (get_or_empty (localLifetimeEnds st) (currentFrameID (frameIDs st)))
             (get_or_empty (locaLifetimeEndsMax st) (currentFrameID (frameIDs st))) of
        (lifetimeEnds, lifetimeEndsMax) \<Rightarrow>
          st\<lparr>events := events st @ [EvInstruction p],
              localLifetimeEnds :=
                (localLifetimeEnds st)(currentFrameID (frameIDs st) \<mapsto> lifetimeEnds),
              locaLifetimeEndsMax :=
                (locaLifetimeEndsMax st)(currentFrameID (frameIDs st) \<mapsto> lifetimeEndsMax)\<rparr>)"
  using step_Instruction [of "instruction_event p" "\<lparr>pc = p\<rparr>" fl str st]
  by (simp add: instruction_event_def no_event_def)

lemma instr_loop_one_dead:
  "e \<noteq> fl \<Longrightarrow> instr_loop fl p 0 [Some e] lm = ([Some e], lm)"
  by (simp add: instr_loop.simps [of fl p 0] instr_loop.simps [of fl p "Suc 0"] js_get_def)

lemma instr_loop_one_live:
  "m < p \<Longrightarrow> instr_loop fl p 0 [Some fl] [Some m] = ([Some p], [Some p])"
  by (simp add: instr_loop.simps [of fl p 0] instr_loop.simps [of fl p "Suc 0"]
      js_get_def js_set_def)

lemma instr_loop_one_fresh:
  "instr_loop fl p 0 [Some fl] [] = ([Some p], [Some p])"
  by (simp add: instr_loop.simps [of fl p 0] instr_loop.simps [of fl p "Suc 0"]
      js_get_def js_set_def)

lemma one_slot_dead_step:
  "one_slot st f e m \<Longrightarrow> e \<noteq> fl \<Longrightarrow> one_slot (step fl str st (instruction_event p)) f e m"
  by (simp add: one_slot_def step_instruction_event get_or_empty_def instr_loop_one_dead)

lemma one_slot_dead_run:
  "one_slot st f e m \<Longrightarrow> e \<noteq> fl \<Longrightarrow>
   one_slot (process_events fl str st (map instruction_event ps)) f e m"
  by (induction ps arbitrary: st) (simp_all add: one_slot_dead_step)

lemma one_slot_live_step:
  "one_slot st f fl m \<Longrightarrow> m < p \<Longrightarrow> one_slot (step fl str st (instruction_event p)) f p p"
  by (simp add: one_slot_def step_instruction_event get_or_empty_def instr_loop_one_live)

lemma one_slot_read:
  "one_slot st f e m \<Longrightarrow> one_slot (step fl str st (read_event (Local f 0) v)) f fl m"
  using step_Effect [of "read_event (Local f 0) v" _ fl str st]
  by (simp add: one_slot_def read_event_def no_event_def no_effect_def effect_location_def
      processJSONLocation_def get_or_empty_def js_set_def)

lemma one_slot_close:
  "one_slot st f e m \<Longrightarrow>
   localLifetimeEnds (step fl str st (close_frame_event g)) (Some f) = Some [Some e]"
  using step_CloseFrame [of "close_frame_event g" _ fl str st]
  by (simp add: one_slot_def close_frame_event_def no_event_def)

lemma one_slot_open:
  "one_slot (step fl str (step fl str init (open_frame_event f [v])) (instruction_event p)) f p p"
  using step_OpenFrame [of "open_frame_event f [v]" _ fl str init]
  by (simp add: one_slot_def open_frame_event_def no_event_def init_def get_or_empty_def
      js_set_def step_instruction_event currentFrameID_def instr_loop_one_fresh)

lemma loop_lifetime:
  assumes "fl < 0" and "10 \<le> k" and "k < 20"
  shows "localLifetimeEnds (process_events fl str init (loop_trace k)) (Some 1) = Some [Some (k + 1)]"
proof -
  have first: "[10..20] = 10 # [11..(20::int)]"
    by (simp add: upto_rec1)
  have after: "[k + 1..20] = (k + 1) # [k + 2..20]"
    using assms(3) by (simp add: upto_rec1 add.commute)
  let ?s1 = "step fl str (step fl str init (open_frame_event 1 [JNumber 7])) (instruction_event 10)"
  let ?s2 = "process_events fl str ?s1 (map instruction_event [11..20])"
  let ?s3 = "process_events fl str ?s2 (map instruction_event [10..k])"
  let ?s4 = "step fl str ?s3 (read_event (Local 1 0) (JNumber 7))"
  let ?s5 = "step fl str ?s4 (instruction_event (k + 1))"
  let ?s6 = "process_events fl str ?s5 (map instruction_event [k + 2..20])"
  let ?s7 = "process_events fl str ?s6 (map instruction_event [10..20])"
  have ne10: "10 \<noteq> fl" and nek: "k + 1 \<noteq> fl" and lt: "10 < k + 1"
    using assms by simp_all
  have a1: "one_slot ?s1 1 10 10"
    by (rule one_slot_open)
  have a2: "one_slot ?s2 1 10 10"
    by (rule one_slot_dead_run [OF a1 ne10])
  have a3: "one_slot ?s3 1 10 10"
    by (rule one_slot_dead_run [OF a2 ne10])
  have a4: "one_slot ?s4 1 fl 10"
    by (rule one_slot_read [OF a3])
  have a5: "one_slot ?s5 1 (k + 1) (k + 1)"
    by (rule one_slot_live_step [OF a4 lt])
  have a6: "one_slot ?s6 1 (k + 1) (k + 1)"
    by (rule one_slot_dead_run [OF a5 nek])
  have a7: "one_slot ?s7 1 (k + 1) (k + 1)"
    by (rule one_slot_dead_run [OF a6 nek])
  have "localLifetimeEnds (step fl str ?s7 (close_frame_event 1)) (Some 1) = Some [Some (k + 1)]"
    by (rule one_slot_close [OF a7])
  moreover have "process_events fl str init (loop_trace k) = step fl str ?s7 (close_frame_event 1)"
    unfolding loop_trace_def by (simp only: first after process_events_append list.map process_events.simps append.simps)
  ultimately show ?thesis
    by simp
qed

subsection \<open>The sample events\<close>

lemma step_open_frame_event:
  "step fl str st (open_frame_event fid params) =
     (case param_loop fl str 0 (map (\<lambda>v. Some (json_value v)) params) []
             (get_or_empty (localLifetimeEnds st) (Some fid)) of
        (paramValues, lifetimeEnds) \<Rightarrow>
          st\<lparr>localLifetimeEnds := (localLifetimeEnds st)(Some fid \<mapsto> lifetimeEnds),
              events := events st @
                [EvOpenFrame fid ''f'' \<lparr>addr = ''0x0'', name = ''m''\<rparr>
                   (map (\<lambda>_. ''u64'') params) paramValues],
              frameIDs := frameIDs st @ [fid]\<rparr>)"
  using step_OpenFrame [of "open_frame_event fid params" _ fl str st]
  by (simp add: open_frame_event_def no_event_def comp_def)

lemma step_close_frame_event:
  "step fl str st (close_frame_event fid) =
     st\<lparr>events := events st @ [EvCloseFrame fid], frameIDs := butlast (frameIDs st)\<rparr>"
  using step_CloseFrame [of "close_frame_event fid" _ fl str st]
  by (simp add: close_frame_event_def no_event_def)

lemma step_write_event:
  "step fl str st (write_event loc v) =
     (case processJSONLocation fl loc (localLifetimeEnds st) (currentFrameID (frameIDs st)) of
        (None, lle) \<Rightarrow> st
      | (Some idx, lle) \<Rightarrow>
          st\<lparr>localLifetimeEnds := lle,
              events := events st @
                [EvEffect (EffWrite (LocLocal (currentFrameID (frameIDs st)) idx)
                   (Runtime (traceValueFromJSON str v)))]\<rparr>)"
  using step_Effect [of "write_event loc v" _ fl str st]
  by (simp add: write_event_def no_event_def no_effect_def effect_location_def json_value_def
      split: prod.splits option.splits)

lemma step_read_event:
  "step fl str st (read_event loc v) =
     (case processJSONLocation fl loc (localLifetimeEnds st) (currentFrameID (frameIDs st)) of
        (None, lle) \<Rightarrow> st
      | (Some idx, lle) \<Rightarrow> st\<lparr>localLifetimeEnds := lle\<rparr>)"
  using step_Effect [of "read_event loc v" _ fl str st]
  by (simp add: read_event_def no_event_def no_effect_def effect_location_def
      split: prod.splits option.splits)

lemma String_number_42: "String_number 42 = ''42''" and String_number_43: "String_number 43 = ''43''"
  by code_simp+

lemmas run_simps =
  step_open_frame_event step_close_frame_event step_write_event step_read_event
  step_instruction_event init_def get_or_empty_def js_set_def currentFrameID_def
  processJSONLocation_def json_value_def instr_loop_one_fresh instr_loop_one_live

subsection \<open>Effects whose location resolves\<close>

lemma processJSONLocation_resolved:
  "fst (processJSONLocation fl location lle cur) = Some s \<Longrightarrow>
   location_frame location = Some f \<Longrightarrow>
   snd (processJSONLocation fl location lle cur) =
     lle(Some f \<mapsto> js_set (get_or_empty lle (Some f)) s fl)"
  by (cases location)
    (auto simp: processJSONLocation_def location_frame_def Let_def split: if_splits)

lemma processJSONLocation_has_frame:
  "fst (processJSONLocation fl location lle cur) = Some s \<Longrightarrow>
   \<exists>f. location_frame location = Some f"
  by (cases location) (auto simp: processJSONLocation_def location_frame_def)

lemma step_Effect_resolved:
  assumes "OpenFrame e = None" and "CloseFrame e = None" and "Instruction e = None"
    and "Effect e = Some eff" and "Write eff \<noteq> None \<or> Read eff \<noteq> None"
    and "fst (processJSONLocation fl (effect_location eff) (localLifetimeEnds st)
           (currentFrameID (frameIDs st))) = Some s"
    and "location_frame (effect_location eff) = Some f"
  shows "localLifetimeEnds (step fl str st e) =
           (localLifetimeEnds st)
             (Some f \<mapsto> js_set (get_or_empty (localLifetimeEnds st) (Some f)) s fl)"
    and "locaLifetimeEndsMax (step fl str st e) = locaLifetimeEndsMax st"
    and "frameIDs (step fl str st e) = frameIDs st"
    and "events (step fl str st e) = events st @
           (case Write eff of
              None \<Rightarrow> []
            | Some w \<Rightarrow>
                [EvEffect (EffWrite (LocLocal (currentFrameID (frameIDs st)) s)
                   (Runtime (traceValueFromJSON str
                      (value (RuntimeValue (root_value_after_write w))))))])"
  using processJSONLocation_resolved [OF assms(6,7)] assms(1-6)
  by (auto simp: step_Effect split: prod.splits option.splits)

subsection \<open>What an iteration appends, and whole runs\<close>

lemma emitted_cases:
  "emitted fl str st e =
     (case OpenFrame e of
        Some opf \<Rightarrow>
          [EvOpenFrame (frame_id (frame opf)) (function_name (frame opf))
             \<lparr>addr = address (module' (frame opf)), name = module_name (module' (frame opf))\<rparr>
             (map type' (locals_types (frame opf)))
             (fst (param_loop fl str 0 (parameters (frame opf)) []
                (get_or_empty (localLifetimeEnds st) (Some (frame_id (frame opf))))))]
      | None \<Rightarrow>
     (case CloseFrame e of
        Some cf \<Rightarrow> [EvCloseFrame (close_frame_id cf)]
      | None \<Rightarrow>
     (case Instruction e of
        Some ins \<Rightarrow> [EvInstruction (pc ins)]
      | None \<Rightarrow>
     (case Effect e of
        None \<Rightarrow> []
      | Some eff \<Rightarrow>
          (case Write eff of
             None \<Rightarrow> []
           | Some w \<Rightarrow>
               (case fst (processJSONLocation fl (write_location w) (localLifetimeEnds st)
                       (currentFrameID (frameIDs st))) of
                  None \<Rightarrow> []
                | Some idx \<Rightarrow>
                    [EvEffect (EffWrite (LocLocal (currentFrameID (frameIDs st)) idx)
                       (Runtime (traceValueFromJSON str
                          (value (RuntimeValue (root_value_after_write w))))))]))))))"
  by (simp add: emitted_def step_def Let_def effect_location_def
      split: option.splits prod.splits)

lemma events_step: "events (step fl str st e) = events st @ emitted fl str st e"
  by (simp add: emitted_def step_def Let_def split: option.splits prod.splits)

lemma readTrace_Parsed:
  "readTrace fl str (Parsed \<lparr>root_events = Some es, version = v\<rparr>) =
     Inr \<lparr>events = events (process_events fl str init es),
          localLifetimeEnds = localLifetimeEnds (process_events fl str init es)\<rparr>"
  by (simp add: readTrace_def Let_def)

lemma process_events_skip:
  "step fl str (process_events fl str st pre) e = process_events fl str st pre \<Longrightarrow>
   process_events fl str st (pre @ e # post) = process_events fl str st (pre @ post)"
  by (simp add: process_events_append)

lemma num_write_effects_insert:
  "num_write_effects (pre @ e # post) =
     num_write_effects (pre @ post) + (if is_write_effect e then 1 else 0)"
  by (simp add: num_write_effects_def)

subsection \<open>Counting the canonical write events\<close>

lemma frameIDs_step: "frameIDs (step fl str st e) = next_frameIDs (frameIDs st) e"
  by (simp add: step_def next_frameIDs_def Let_def split: option.splits prod.splits)

lemma frameIDs_process_events:
  "frameIDs (process_events fl str st es) = foldl next_frameIDs (frameIDs st) es"
  by (induction es arbitrary: st) (simp_all add: frameIDs_step)

lemma processJSONLocation_None:
  "fst (processJSONLocation fl location lle cur) = None \<longleftrightarrow> \<not> resolves location cur"
  by (cases location) (simp_all add: processJSONLocation_def resolves_def Let_def)

lemma num_writes_emitted:
  "num_writes (emitted fl str st e) + (if is_dropped_write (frameIDs st) e then 1 else 0) =
     (if is_write_effect e then 1 else 0)"
proof (cases "is_write_effect e")
  case False
  then show ?thesis
    by (auto simp: emitted_cases is_write_effect_def is_dropped_write_def num_writes_def
        is_write_def split: option.splits)
next
  case True
  then obtain eff w where ev: "OpenFrame e = None" "CloseFrame e = None" "Instruction e = None"
    "Effect e = Some eff" "Write eff = Some w"
    by (auto simp: is_write_effect_def split: option.splits)
  then have loc: "effect_location eff = write_location w"
    by (simp add: effect_location_def)
  show ?thesis
  proof (cases "resolves (write_location w) (currentFrameID (frameIDs st))")
    case True
    then obtain idx where "fst (processJSONLocation fl (write_location w) (localLifetimeEnds st)
        (currentFrameID (frameIDs st))) = Some idx"
      using processJSONLocation_None [of fl "write_location w" "localLifetimeEnds st"
          "currentFrameID (frameIDs st)"]
      by auto
    with ev loc True show ?thesis
      by (simp add: emitted_cases is_write_effect_def is_dropped_write_def num_writes_def
          is_write_def)
  next
    case False
    then have "fst (processJSONLocation fl (write_location w) (localLifetimeEnds st)
        (currentFrameID (frameIDs st))) = None"
      by (simp add: processJSONLocation_None)
    with ev loc False show ?thesis
      by (simp add: emitted_cases is_write_effect_def is_dropped_write_def num_writes_def)
  qed
qed

lemma num_writes_run:
  "num_writes (events (process_events fl str st es)) + dropped_writes (frameIDs st) es =
     num_writes (events st) + num_write_effects es"
proof (induction es arbitrary: st)
  case Nil
  show ?case
    by (simp add: num_write_effects_def)
next
  case (Cons e es)
  have "num_writes (events (step fl str st e)) +
          (if is_dropped_write (frameIDs st) e then 1 else 0) =
        num_writes (events st) + (if is_write_effect e then 1 else 0)"
    using num_writes_emitted [of fl str st e] by (simp add: events_step num_writes_def)
  moreover have "num_writes (events (process_events fl str (step fl str st e) es)) +
          dropped_writes (next_frameIDs (frameIDs st) e) es =
        num_writes (events (step fl str st e)) + num_write_effects es"
    using Cons.IH [of "step fl str st e"] by (simp add: frameIDs_step)
  moreover have "num_write_effects (e # es) =
      (if is_write_effect e then 1 else 0) + num_write_effects es"
    by (simp add: num_write_effects_def)
  ultimately show ?case
    by (simp split: if_splits)
qed

lemma dropped_writes_append:
  "dropped_writes ids (xs @ ys) =
     dropped_writes ids xs + dropped_writes (foldl next_frameIDs ids xs) ys"
  by (induction xs arbitrary: ids) simp_all

subsection \<open>The order of \<^verbatim>\<open>Object.entries\<close>\<close>

lemma Object_entries_plain:
  assumes "\<forall>key\<in>fst ` set props. \<not> is_array_index key"
  shows "Object_entries props = props"
proof -
  from assms have "filter (\<lambda>(key, v). is_array_index key) props = []"
    by (induction props) auto
  moreover from assms have "filter (\<lambda>(key, v). \<not> is_array_index key) props = props"
    by (induction props) auto
  ultimately show ?thesis
    by (simp add: Object_entries_def)
qed

lemma Object_entries_split:
  "Object_entries props =
     sort_key (digits_value \<circ> fst) (filter (is_array_index \<circ> fst) props) @
     filter (Not \<circ> is_array_index \<circ> fst) props"
  by (simp add: Object_entries_def comp_def case_prod_unfold)

lemma length_Object_entries: "length (Object_entries props) = length props"
  unfolding Object_entries_split
  by (simp only: length_append length_sort comp_def sum_length_filter_compl)

lemma map_fst_insort_key:
  "map fst (insort_key (\<lambda>p. g (fst p)) x xs) = insort_key g (fst x) (map fst xs)"
  by (induction xs) simp_all

lemma map_fst_sort_key: "map fst (sort_key (\<lambda>p. g (fst p)) xs) = sort_key g (map fst xs)"
  by (induction xs) (simp_all add: map_fst_insort_key)

lemma keys_Object_entries:
  "map fst (Object_entries props) =
     sort_key digits_value (filter is_array_index (map fst props)) @
     filter (\<lambda>key. \<not> is_array_index key) (map fst props)"
  unfolding Object_entries_split
  by (simp add: map_fst_sort_key filter_map comp_def)

section \<open>The claims\<close>

subsection \<open>C1: instructions and the end of life of live slots\<close>

text \<open>
  C1, as amended. When an \<^verbatim>\<open>Instruction\<close> event with program counter \<open>pc\<close> is processed
  while \<open>f\<close> is the top of \<^verbatim>\<open>frameIDs\<close>, every slot \<open>i\<close> of the row of \<open>f\<close> whose end
  of life is unset or the alive-sentinel gets end of life \<open>pc\<close> and maximum \<open>pc\<close> exactly
  when its maximum is unset or less than \<open>pc\<close>; otherwise both entries stay as they are.
  In the loop scenario (a body at 10 to 20 that runs three times, the local read on the
  second pass only, after the instruction at \<open>k\<close> with \<open>10 \<le> k < 20\<close>) the final end of
  life is \<open>k + 1\<close>, the program counter of the instruction that follows the read: later
  instructions find the entry set and leave it. It is at least 20 only for \<open>k = 19\<close>.
\<close>

theorem instruction_lifetime_law:
  assumes "OpenFrame e = None" and "CloseFrame e = None" and "Instruction e = Some ins"
    and "f = currentFrameID (frameIDs st)"
    and "i < length (get_or_empty (localLifetimeEnds st) f)"
    and "endOfLife st f i = None \<or> endOfLife st f i = Some fl"
  shows "(if maxPcSeen st f i = None \<or> the (maxPcSeen st f i) < pc ins
          then endOfLife (step fl str st e) f i = Some (pc ins) \<and>
               maxPcSeen (step fl str st e) f i = Some (pc ins)
          else endOfLife (step fl str st e) f i = endOfLife st f i \<and>
               maxPcSeen (step fl str st e) f i = maxPcSeen st f i) \<and>
         (fl < 0 \<and> 10 \<le> k \<and> k < 20 \<longrightarrow>
            endOfLife (process_events fl str' init (loop_trace k)) (Some 1) 0 = Some (k + 1))"
proof -
  obtain le lm where run:
    "instr_loop fl (pc ins) 0 (get_or_empty (localLifetimeEnds st) f)
       (get_or_empty (locaLifetimeEndsMax st) f) = (le, lm)"
    by (cases "instr_loop fl (pc ins) 0 (get_or_empty (localLifetimeEnds st) f)
       (get_or_empty (locaLifetimeEndsMax st) f)") blast
  have eol: "endOfLife (step fl str st e) f i = js_get le i"
    and mx: "maxPcSeen (step fl str st e) f i = js_get lm i"
    using assms(1-4) run
    by (simp_all add: step_Instruction endOfLife_def maxPcSeen_def get_or_empty_def)
  have law: "if maxPcSeen st f i = None \<or> the (maxPcSeen st f i) < pc ins
          then endOfLife (step fl str st e) f i = Some (pc ins) \<and>
               maxPcSeen (step fl str st e) f i = Some (pc ins)
          else endOfLife (step fl str st e) f i = endOfLife st f i \<and>
               maxPcSeen (step fl str st e) f i = maxPcSeen st f i"
    using instr_loop_spec [OF run] assms(5,6)
    unfolding eol mx by (simp add: endOfLife_def maxPcSeen_def)
  have scenario: "endOfLife (process_events fl str' init (loop_trace k)) (Some 1) 0 = Some (k + 1)"
    if "fl < 0" and "10 \<le> k" and "k < 20"
    using loop_lifetime [OF that] by (simp add: endOfLife_def get_or_empty_def js_get_def)
  from law scenario show ?thesis
    by blast
qed

theorem instruction_lifetime_law_witness:
  "endOfLife (step (- 1) String_number (step (- 1) String_number init (open_frame_event 1 [JNumber 7])) (instruction_event 10))
      (Some 1) 0 = Some 10 \<and>
   maxPcSeen (step (- 1) String_number (step (- 1) String_number init (open_frame_event 1 [JNumber 7])) (instruction_event 10))
      (Some 1) 0 = Some 10 \<and>
   endOfLife (process_events (- 1) String_number init (loop_trace 15)) (Some 1) 0 = Some 16"
proof -
  let ?st = "step (- 1) String_number init (open_frame_event 1 [JNumber 7])"
  have h1: "OpenFrame (instruction_event 10) = None"
    and h2: "CloseFrame (instruction_event 10) = None"
    and h3: "Instruction (instruction_event 10) = Some \<lparr>pc = 10\<rparr>"
    by (simp_all add: instruction_event_def no_event_def)
  have h4: "Some 1 = currentFrameID (frameIDs ?st)"
    by code_simp
  have h5: "0 < length (get_or_empty (localLifetimeEnds ?st) (Some 1))"
    by code_simp
  have h6: "endOfLife ?st (Some 1) 0 = None \<or> endOfLife ?st (Some 1) 0 = Some (- 1)"
    by code_simp
  have c: "maxPcSeen ?st (Some 1) 0 = None"
    by code_simp
  from instruction_lifetime_law [OF h1 h2 h3 h4 h5 h6, of String_number 15 String_number] c show ?thesis
    by simp
qed

text \<open>
  The claim as stated fails: with the read after the instruction at 15, the final end of
  life of the local is 16.
\<close>

theorem loop_lifetime_counterexample:
  "endOfLife (process_events (- 1) String_number init (loop_trace 15)) (Some 1) 0 = Some 16 \<and> (16::int) < 20"
  by code_simp

subsection \<open>C2: the concrete scenario\<close>

text \<open>
  C2. For the trace \<^verbatim>\<open>OpenFrame(id=1, params=[42])\<close>, \<^verbatim>\<open>Instruction(pc=0)\<close>,
  \<^verbatim>\<open>Effect.Write(Local [1,0], 43)\<close>, \<^verbatim>\<open>Instruction(pc=1)\<close>, \<^verbatim>\<open>CloseFrame(id=1)\<close>,
  \<^verbatim>\<open>readTrace\<close> returns exactly the five canonical events
  \<^verbatim>\<open>OpenFrame\<close>, \<^verbatim>\<open>Instruction(0)\<close>, \<^verbatim>\<open>Effect(Write, slot 0, "43")\<close>, \<^verbatim>\<open>Instruction(1)\<close>,
  \<^verbatim>\<open>CloseFrame\<close>; the row of frame 1 is \<open>[FRAME_LIFETIME]\<close> right after the write
  effect; and \<^verbatim>\<open>CloseFrame\<close> leaves the row as the instruction before it made it, which
  is the row of the result. This holds for every value of the sentinel and of the
  version field.
\<close>

theorem concrete_scenario:
  "readTrace fl String_number (Parsed \<lparr>root_events = Some scenario_trace, version = v\<rparr>) =
     Inr \<lparr>events =
            [EvOpenFrame 1 ''f'' \<lparr>addr = ''0x0'', name = ''m''\<rparr> [''u64'']
               [Runtime (RString ''42'')],
             EvInstruction 0,
             EvEffect (EffWrite (LocLocal (Some 1) 0) (Runtime (RString ''43''))),
             EvInstruction 1,
             EvCloseFrame 1],
          localLifetimeEnds = [Some 1 \<mapsto> [Some 1]]\<rparr> \<and>
   localLifetimeEnds (process_events fl String_number init (take 3 scenario_trace)) (Some 1) = Some [Some fl] \<and>
   localLifetimeEnds (process_events fl String_number init (take 4 scenario_trace)) (Some 1) = Some [Some 1] \<and>
   localLifetimeEnds (process_events fl String_number init scenario_trace) (Some 1) = Some [Some 1]"
  by (simp add: readTrace_def scenario_trace_def run_simps String_number_42 String_number_43)

subsection \<open>C3: malformed input\<close>

text \<open>
  C3, as amended. On text that is not JSON \<^verbatim>\<open>readTrace\<close> raises (a \<^verbatim>\<open>SyntaxError\<close>), on
  a root object without \<^verbatim>\<open>events\<close> it raises (a \<^verbatim>\<open>TypeError\<close>), and in both cases it
  returns no result. The field \<^verbatim>\<open>version\<close> is never read: whenever \<^verbatim>\<open>events\<close> is present
  \<^verbatim>\<open>readTrace\<close> returns a result, and the result is the same for every version, present
  or missing.
\<close>

theorem readTrace_errors:
  "readTrace fl str NotJSON = Inl SyntaxError \<and>
   (root_events r = None \<longrightarrow> readTrace fl str (Parsed r) = Inl TypeError) \<and>
   (root_events r \<noteq> None \<longrightarrow> (\<exists>trace. readTrace fl str (Parsed r) = Inr trace)) \<and>
   readTrace fl str (Parsed (r\<lparr>version := v\<rparr>)) = readTrace fl str (Parsed r)"
  by (auto simp: readTrace_def Let_def)

theorem readTrace_errors_witness:
  "readTrace (- 1) String_number (Parsed \<lparr>root_events = None, version = Some 1\<rparr>) = Inl TypeError \<and>
   result_events (readTrace (- 1) String_number (Parsed \<lparr>root_events = Some [instruction_event 0], version = Some 1\<rparr>))
     = Some [EvInstruction 0] \<and>
   readTrace (- 1) String_number (Parsed \<lparr>root_events = Some [instruction_event 0], version = Some 999\<rparr>) =
   readTrace (- 1) String_number (Parsed \<lparr>root_events = Some [instruction_event 0], version = Some 1\<rparr>)"
proof -
  have ev: "result_events (readTrace (- 1) String_number
      (Parsed \<lparr>root_events = Some [instruction_event 0], version = Some 1\<rparr>)) = Some [EvInstruction 0]"
    by code_simp
  from readTrace_errors [of "- 1" String_number "\<lparr>root_events = None, version = Some 1\<rparr>"]
  have "readTrace (- 1) String_number (Parsed \<lparr>root_events = None, version = Some 1\<rparr>) = Inl TypeError"
    by simp
  moreover from readTrace_errors [of "- 1" String_number "\<lparr>root_events = Some [instruction_event 0], version = Some 1\<rparr>" "Some 999"]
  have "readTrace (- 1) String_number (Parsed \<lparr>root_events = Some [instruction_event 0], version = Some 999\<rparr>) =
   readTrace (- 1) String_number (Parsed \<lparr>root_events = Some [instruction_event 0], version = Some 1\<rparr>)"
    by simp
  ultimately show ?thesis
    using ev by simp
qed

text \<open>
  The claim as stated fails: with \<^verbatim>\<open>version: 999\<close>, and with no version at all, the
  events are processed and a result is returned.
\<close>

theorem unsupported_version_counterexample:
  "result_events (readTrace (- 1) String_number
      (Parsed \<lparr>root_events = Some [instruction_event 0], version = Some 999\<rparr>)) =
     Some [EvInstruction 0] \<and>
   result_events (readTrace (- 1) String_number
      (Parsed \<lparr>root_events = Some [instruction_event 0], version = None\<rparr>)) =
     Some [EvInstruction 0]"
  by code_simp

subsection \<open>C4: events of no known shape\<close>

text \<open>
  C4, as amended. An event that has none of the keys \<^verbatim>\<open>OpenFrame\<close>, \<^verbatim>\<open>CloseFrame\<close>,
  \<^verbatim>\<open>Instruction\<close>, \<^verbatim>\<open>Effect\<close> is skipped: its iteration changes nothing, and
  \<^verbatim>\<open>readTrace\<close> returns the result of the trace without that event.
\<close>

theorem unknown_event_skipped:
  assumes "OpenFrame e = None" and "CloseFrame e = None" and "Instruction e = None"
    and "Effect e = None"
  shows "step fl str st e = st \<and>
         process_events fl str st (pre @ e # post) = process_events fl str st (pre @ post) \<and>
         readTrace fl str (Parsed \<lparr>root_events = Some (pre @ e # post), version = v\<rparr>) =
           readTrace fl str (Parsed \<lparr>root_events = Some (pre @ post), version = v\<rparr>)"
  using assms by (simp add: step_unknown process_events_append readTrace_Parsed)

theorem unknown_event_skipped_witness:
  "readTrace (- 1) String_number
     (Parsed \<lparr>root_events = Some ([open_frame_event 1 []] @ no_event # [close_frame_event 1]),
        version = Some 1\<rparr>) =
   readTrace (- 1) String_number
     (Parsed \<lparr>root_events = Some ([open_frame_event 1 []] @ [close_frame_event 1]),
        version = Some 1\<rparr>)"
proof -
  have "OpenFrame no_event = None" and "CloseFrame no_event = None"
    and "Instruction no_event = None" and "Effect no_event = None"
    by (simp_all add: no_event_def)
  from unknown_event_skipped [OF this] show ?thesis
    by blast
qed

text \<open>
  The claim as stated fails: a trace with such an event between \<^verbatim>\<open>OpenFrame(1)\<close> and
  \<^verbatim>\<open>CloseFrame(1)\<close> yields a result, with the two canonical events of its neighbours.
\<close>

theorem unknown_event_counterexample:
  "result_events (readTrace (- 1) String_number
      (Parsed \<lparr>root_events = Some [open_frame_event 1 [], no_event, close_frame_event 1],
         version = Some 1\<rparr>)) =
     Some [EvOpenFrame 1 ''f'' \<lparr>addr = ''0x0'', name = ''m''\<rparr> [] [], EvCloseFrame 1]"
  by code_simp

subsection \<open>C5: the row of a closed frame\<close>

text \<open>
  C5, as amended. Processing a \<^verbatim>\<open>CloseFrame\<close> event changes no lifetime row. The row
  stored for its frame identifier stays as it is through all later events provided that
  the identifier is not among the frames still open and no later event opens a frame
  with that identifier or is a read or write effect whose location names it. (A later
  \<^verbatim>\<open>OpenFrame\<close> with the same identifier, or a later effect naming it, does write the
  row.)
\<close>

theorem closed_row_untouched:
  assumes "OpenFrame c = None" and "CloseFrame c = Some cf"
    and "close_frame_id cf \<notin> set (butlast (frameIDs st))"
    and "\<forall>e\<in>set later. \<not> touches (close_frame_id cf) e"
  shows "localLifetimeEnds (step fl str st c) = localLifetimeEnds st \<and>
         localLifetimeEnds (process_events fl str st (c # later)) (Some (close_frame_id cf)) =
           localLifetimeEnds st (Some (close_frame_id cf))"
proof -
  have "localLifetimeEnds (step fl str st c) = localLifetimeEnds st"
    and "frameIDs (step fl str st c) = butlast (frameIDs st)"
    using assms(1,2) by (simp_all add: step_CloseFrame)
  with assms(3,4) process_events_untouched [of "close_frame_id cf" "step fl str st c" later fl str]
  show ?thesis
    by simp
qed

theorem closed_row_untouched_witness:
  "localLifetimeEnds (process_events (- 1) String_number
      (process_events (- 1) String_number init [open_frame_event 1 [JNumber 42], instruction_event 0])
      [close_frame_event 1, open_frame_event 2 [JNumber 5], instruction_event 3,
       write_event (Local 2 0) (JNumber 6), close_frame_event 2]) (Some 1) =
   localLifetimeEnds
      (process_events (- 1) String_number init [open_frame_event 1 [JNumber 42], instruction_event 0]) (Some 1)"
proof -
  let ?st = "process_events (- 1) String_number init [open_frame_event 1 [JNumber 42], instruction_event 0]"
  let ?later = "[open_frame_event 2 [JNumber 5], instruction_event 3,
       write_event (Local 2 0) (JNumber 6), close_frame_event 2]"
  have h1: "OpenFrame (close_frame_event 1) = None"
    and h2: "CloseFrame (close_frame_event 1) = Some \<lparr>close_frame_id = 1\<rparr>"
    by (simp_all add: close_frame_event_def no_event_def)
  have h3: "close_frame_id \<lparr>close_frame_id = 1\<rparr> \<notin> set (butlast (frameIDs ?st))"
    by code_simp
  have h4: "\<forall>e\<in>set ?later. \<not> touches (close_frame_id \<lparr>close_frame_id = 1\<rparr>) e"
    by code_simp
  from closed_row_untouched [OF h1 h2 h3 h4, of "- 1" String_number] show ?thesis
    by simp
qed

text \<open>
  The claim as stated fails. After \<^verbatim>\<open>CloseFrame(1)\<close> the row of frame 1 is \<open>[0]\<close>; a
  later \<^verbatim>\<open>OpenFrame\<close> that reuses the identifier, and a later write effect whose
  location names frame 1, each reset slot 0 to the alive-sentinel.
\<close>

theorem closed_row_counterexample:
  "localLifetimeEnds (process_events (- 1) String_number init
     [open_frame_event 1 [JNumber 42], instruction_event 0, close_frame_event 1])
     (Some 1) = Some [Some 0] \<and>
   localLifetimeEnds (process_events (- 1) String_number init
     [open_frame_event 1 [JNumber 42], instruction_event 0, close_frame_event 1,
      open_frame_event 1 [JNumber 42]])
     (Some 1) = Some [Some (- 1)] \<and>
   localLifetimeEnds (process_events (- 1) String_number init
     [open_frame_event 1 [JNumber 42], instruction_event 0, close_frame_event 1,
      open_frame_event 2 [], write_event (Local 1 0) (JNumber 5)])
     (Some 1) = Some [Some (- 1)]"
  by code_simp

subsection \<open>C6: a \<^verbatim>\<open>CloseFrame\<close> that does not match the top of the stack\<close>

text \<open>
  C6, as amended. A \<^verbatim>\<open>CloseFrame\<close> event with any frame identifier, equal to the top of
  \<^verbatim>\<open>frameIDs\<close> or not, appends \<^verbatim>\<open>CloseFrame(id)\<close> to the canonical events and pops the
  top of \<^verbatim>\<open>frameIDs\<close> (nothing when it is empty); the identifier is not compared with
  the stack and \<^verbatim>\<open>readTrace\<close> returns a result.
\<close>

theorem close_frame_unchecked:
  assumes "OpenFrame e = None" and "CloseFrame e = Some cf"
  shows "step fl str st e =
           st\<lparr>events := events st @ [EvCloseFrame (close_frame_id cf)],
              frameIDs := butlast (frameIDs st)\<rparr> \<and>
         (\<exists>trace. readTrace fl str
            (Parsed \<lparr>root_events = Some (pre @ e # post), version = v\<rparr>) = Inr trace)"
  using assms by (simp add: step_CloseFrame readTrace_Parsed)

theorem close_frame_unchecked_witness:
  "currentFrameID (frameIDs (process_events (- 1) String_number init [open_frame_event 1 []])) = Some 1 \<and>
   events (step (- 1) String_number (process_events (- 1) String_number init [open_frame_event 1 []]) (close_frame_event 2)) =
     events (process_events (- 1) String_number init [open_frame_event 1 []]) @ [EvCloseFrame 2] \<and>
   frameIDs (step (- 1) String_number (process_events (- 1) String_number init [open_frame_event 1 []]) (close_frame_event 2)) = []"
proof -
  let ?st = "process_events (- 1) String_number init [open_frame_event 1 []]"
  have h1: "OpenFrame (close_frame_event 2) = None"
    and h2: "CloseFrame (close_frame_event 2) = Some \<lparr>close_frame_id = 2\<rparr>"
    by (simp_all add: close_frame_event_def no_event_def)
  have top: "currentFrameID (frameIDs ?st) = Some 1" and ids: "butlast (frameIDs ?st) = []"
    by code_simp+
  from close_frame_unchecked [OF h1 h2, of "- 1" String_number ?st]
  have "step (- 1) String_number ?st (close_frame_event 2) =
      ?st\<lparr>events := events ?st @ [EvCloseFrame 2], frameIDs := butlast (frameIDs ?st)\<rparr>"
    by simp
  then have "events (step (- 1) String_number ?st (close_frame_event 2)) = events ?st @ [EvCloseFrame 2]"
    and "frameIDs (step (- 1) String_number ?st (close_frame_event 2)) = []"
    using ids by simp_all
  with top show ?thesis
    by blast
qed

text \<open>
  The claim as stated fails: \<^verbatim>\<open>CloseFrame(2)\<close> while frame 1 is on top is accepted, and
  the events after it are processed.
\<close>

theorem close_frame_mismatch_counterexample:
  "result_events (readTrace (- 1) String_number
      (Parsed \<lparr>root_events = Some [open_frame_event 1 [], close_frame_event 2, instruction_event 0],
         version = Some 1\<rparr>)) =
     Some [EvOpenFrame 1 ''f'' \<lparr>addr = ''0x0'', name = ''m''\<rparr> [] [], EvCloseFrame 2,
           EvInstruction 0]"
  by code_simp

subsection \<open>C7: an indexed location in another frame\<close>

text \<open>
  C7, as amended. For a \<^verbatim>\<open>Write\<close> or \<^verbatim>\<open>Read\<close> effect whose location is \<^verbatim>\<open>Indexed\<close> with
  a base frame identifier different from the top of \<^verbatim>\<open>frameIDs\<close>, the location resolves
  to \<^verbatim>\<open>undefined\<close>, the iteration changes nothing (no canonical event, no table entry),
  and \<^verbatim>\<open>readTrace\<close> returns, without raising, the result of the trace without that
  effect. In every trace the canonical \<^verbatim>\<open>Write\<close> events are as many as the \<^verbatim>\<open>Write\<close>
  effects less those whose location does not resolve when they are processed; the
  dropped effect is one of these exactly when it has a \<^verbatim>\<open>Write\<close>. So the canonical
  \<^verbatim>\<open>Write\<close> events are one fewer than the \<^verbatim>\<open>Write\<close> effects when the dropped effect is a
  \<^verbatim>\<open>Write\<close> and every other \<^verbatim>\<open>Write\<close> effect resolves, and as many as the \<^verbatim>\<open>Write\<close> effects
  when it is a \<^verbatim>\<open>Read\<close> and every \<^verbatim>\<open>Write\<close> effect resolves.
\<close>

theorem indexed_other_frame_dropped:
  assumes "OpenFrame e = None" and "CloseFrame e = None" and "Instruction e = None"
    and "Effect e = Some eff" and "Write eff \<noteq> None \<or> Read eff \<noteq> None"
    and "effect_location eff = Indexed f i x"
    and "currentFrameID (frameIDs (process_events fl str init pre)) \<noteq> Some f"
  shows "fst (processJSONLocation fl (effect_location eff)
                (localLifetimeEnds (process_events fl str init pre))
                (currentFrameID (frameIDs (process_events fl str init pre)))) = None \<and>
         step fl str (process_events fl str init pre) e = process_events fl str init pre \<and>
         readTrace fl str (Parsed \<lparr>root_events = Some (pre @ e # post), version = v\<rparr>) =
           readTrace fl str (Parsed \<lparr>root_events = Some (pre @ post), version = v\<rparr>) \<and>
         (\<exists>trace. readTrace fl str
            (Parsed \<lparr>root_events = Some (pre @ e # post), version = v\<rparr>) = Inr trace \<and>
            num_writes (events trace) + dropped_writes [] (pre @ e # post) =
              num_write_effects (pre @ e # post) \<and>
            (dropped_writes [] (pre @ post) = 0 \<longrightarrow>
               num_writes (events trace) + (if Write eff = None then 0 else 1) =
                 num_write_effects (pre @ e # post))) \<and>
         dropped_writes [] (pre @ e # post) =
           dropped_writes [] (pre @ post) + (if Write eff = None then 0 else 1) \<and>
         (\<forall>es. num_writes (events (process_events fl str init es)) + dropped_writes [] es =
            num_write_effects es)"
proof -
  let ?st = "process_events fl str init pre"
  have res: "processJSONLocation fl (effect_location eff) (localLifetimeEnds ?st)
               (currentFrameID (frameIDs ?st)) = (None, localLifetimeEnds ?st)"
    using assms(6,7) by (auto simp: processJSONLocation_def)
  then have same: "step fl str ?st e = ?st"
    using assms(1-5) by (simp add: step_Effect)
  have count: "num_writes (events (process_events fl str init es)) + dropped_writes [] es =
      num_write_effects es" for es
    using num_writes_run [of fl str init es] by (simp add: init_def num_writes_def)
  have ids: "foldl next_frameIDs [] pre = frameIDs ?st"
    by (simp add: frameIDs_process_events init_def)
  have "\<not> resolves (effect_location eff) (currentFrameID (frameIDs ?st))"
    using assms(6,7) by (auto simp: resolves_def)
  then have "is_dropped_write (frameIDs ?st) e = (Write eff \<noteq> None)"
    using assms(1-4) by (simp add: is_dropped_write_def)
  moreover have "next_frameIDs (frameIDs ?st) e = frameIDs ?st"
    using assms(1,2) by (simp add: next_frameIDs_def)
  ultimately have dropped: "dropped_writes [] (pre @ e # post) =
      dropped_writes [] (pre @ post) + (if Write eff = None then 0 else 1)"
    by (simp add: dropped_writes_append ids)
  have result: "readTrace fl str (Parsed \<lparr>root_events = Some (pre @ e # post), version = v\<rparr>) =
      Inr \<lparr>events = events (process_events fl str init (pre @ e # post)),
           localLifetimeEnds = localLifetimeEnds (process_events fl str init (pre @ e # post))\<rparr>"
    by (rule readTrace_Parsed)
  have fewer: "num_writes (events (process_events fl str init (pre @ e # post))) +
      (if Write eff = None then 0 else 1) = num_write_effects (pre @ e # post)"
    if "dropped_writes [] (pre @ post) = 0"
    using count [of "pre @ e # post"] dropped that by simp
  from res have first: "fst (processJSONLocation fl (effect_location eff) (localLifetimeEnds ?st)
               (currentFrameID (frameIDs ?st))) = None"
    by simp
  have skip: "readTrace fl str (Parsed \<lparr>root_events = Some (pre @ e # post), version = v\<rparr>) =
           readTrace fl str (Parsed \<lparr>root_events = Some (pre @ post), version = v\<rparr>)"
    using same by (simp add: readTrace_Parsed process_events_skip)
  let ?trace = "\<lparr>events = events (process_events fl str init (pre @ e # post)),
      localLifetimeEnds = localLifetimeEnds (process_events fl str init (pre @ e # post))\<rparr>"
  have ex: "\<exists>trace. readTrace fl str
            (Parsed \<lparr>root_events = Some (pre @ e # post), version = v\<rparr>) = Inr trace \<and>
            num_writes (events trace) + dropped_writes [] (pre @ e # post) =
              num_write_effects (pre @ e # post) \<and>
            (dropped_writes [] (pre @ post) = 0 \<longrightarrow>
               num_writes (events trace) + (if Write eff = None then 0 else 1) =
                 num_write_effects (pre @ e # post))"
  proof (rule exI [of _ ?trace], intro conjI impI)
    show "readTrace fl str (Parsed \<lparr>root_events = Some (pre @ e # post), version = v\<rparr>) =
        Inr ?trace"
      by (rule result)
    show "num_writes (events ?trace) + dropped_writes [] (pre @ e # post) =
        num_write_effects (pre @ e # post)"
      using count [of "pre @ e # post"] by simp
    show "num_writes (events ?trace) + (if Write eff = None then 0 else 1) =
        num_write_effects (pre @ e # post)"
      if "dropped_writes [] (pre @ post) = 0"
      using fewer [OF that] by simp
  qed
  from count have all: "\<forall>es. num_writes (events (process_events fl str init es)) +
      dropped_writes [] es = num_write_effects es"
    by blast
  show ?thesis
    by (intro conjI) (rule first, rule same, rule skip, rule ex, rule dropped, rule all)
qed

theorem indexed_other_frame_dropped_witness:
  "readTrace (- 1) String_number (Parsed \<lparr>root_events = Some ([open_frame_event 1 [JNumber 42]] @
       write_event (Indexed 2 0 0) (JNumber 43) #
       [write_event (Local 1 0) (JNumber 44), close_frame_event 1]), version = Some 1\<rparr>) =
   readTrace (- 1) String_number (Parsed \<lparr>root_events = Some ([open_frame_event 1 [JNumber 42]] @
       [write_event (Local 1 0) (JNumber 44), close_frame_event 1]), version = Some 1\<rparr>) \<and>
   map_option num_writes (result_events (readTrace (- 1) String_number
     (Parsed \<lparr>root_events = Some ([open_frame_event 1 [JNumber 42]] @
       write_event (Indexed 2 0 0) (JNumber 43) #
       [write_event (Local 1 0) (JNumber 44), close_frame_event 1]), version = Some 1\<rparr>))) =
     Some 1 \<and>
   num_write_effects ([open_frame_event 1 [JNumber (42::int)]] @
       write_event (Indexed 2 0 0) (JNumber 43) #
       [write_event (Local 1 0) (JNumber 44), close_frame_event 1]) = 2 \<and>
   dropped_writes [] ([open_frame_event 1 [JNumber (42::int)]] @
       write_event (Indexed 2 0 0) (JNumber 43) #
       [write_event (Local 1 0) (JNumber 44), close_frame_event 1]) = 1"
proof -
  let ?e = "write_event (Indexed 2 0 0) (JNumber (43::int))"
  let ?eff = "no_effect\<lparr>Write := Some \<lparr>write_location = Indexed 2 0 0,
                 root_value_after_write = json_value (JNumber (43::int))\<rparr>\<rparr>"
  let ?pre = "[open_frame_event 1 [JNumber (42::int)]]"
  let ?post = "[write_event (Local 1 0) (JNumber (44::int)), close_frame_event 1]"
  have h1: "OpenFrame ?e = None" and h2: "CloseFrame ?e = None" and h3: "Instruction ?e = None"
    and h4: "Effect ?e = Some ?eff"
    by (simp_all add: write_event_def no_event_def)
  have h5: "Write ?eff \<noteq> None \<or> Read ?eff \<noteq> None"
    by simp
  have h6: "effect_location ?eff = Indexed 2 0 0"
    by (simp add: effect_location_def)
  have h7: "currentFrameID (frameIDs (process_events (- 1) String_number init ?pre)) \<noteq> Some 2"
    by code_simp
  have d: "dropped_writes [] (?pre @ ?post) = 0"
    by code_simp
  have w: "Write ?eff \<noteq> None"
    by simp
  from indexed_other_frame_dropped [OF h1 h2 h3 h4 h5 h6 h7, of ?post "Some 1"]
  obtain trace where same: "readTrace (- 1) String_number
        (Parsed \<lparr>root_events = Some (?pre @ ?e # ?post), version = Some 1\<rparr>) =
      readTrace (- 1) String_number
        (Parsed \<lparr>root_events = Some (?pre @ ?post), version = Some 1\<rparr>)"
    and tr: "readTrace (- 1) String_number
        (Parsed \<lparr>root_events = Some (?pre @ ?e # ?post), version = Some 1\<rparr>) = Inr trace"
    and cnt: "num_writes (events trace) + dropped_writes [] (?pre @ ?e # ?post) =
        num_write_effects (?pre @ ?e # ?post)"
    and drp: "dropped_writes [] (?pre @ ?e # ?post) =
        dropped_writes [] (?pre @ ?post) + (if Write ?eff = None then 0 else 1)"
    by blast
  have total: "num_write_effects (?pre @ ?e # ?post) = 2"
    by code_simp
  from drp d w have one: "dropped_writes [] (?pre @ ?e # ?post) = 1"
    by simp
  with cnt total have "num_writes (events trace) = 1"
    by simp
  with tr have "map_option num_writes (result_events (readTrace (- 1) String_number
        (Parsed \<lparr>root_events = Some (?pre @ ?e # ?post), version = Some 1\<rparr>))) = Some 1"
    by (simp add: result_events_def)
  with same total one show ?thesis
    by (intro conjI)
qed

text \<open>
  The claim as stated fails for a \<^verbatim>\<open>Read\<close> effect: the trace below has one \<^verbatim>\<open>Write\<close>
  effect and a dropped \<^verbatim>\<open>Read\<close> effect, and its result has one canonical \<^verbatim>\<open>Write\<close>
  event, not one fewer.
\<close>

theorem dropped_read_counterexample:
  "map_option num_writes (result_events (readTrace (- 1) String_number
     (Parsed \<lparr>root_events = Some [open_frame_event 1 [JNumber 42],
        write_event (Local 1 0) (JNumber 43), read_event (Indexed 2 0 0) (JNumber 5),
        close_frame_event 1], version = Some 1\<rparr>))) = Some 1 \<and>
   num_write_effects [open_frame_event 1 [JNumber (42::int)],
        write_event (Local 1 0) (JNumber 43), read_event (Indexed 2 0 0) (JNumber 5),
        close_frame_event 1] = 1"
  by code_simp

subsection \<open>C8: an effect resets the end of life of its slot\<close>



subsection \<open>C9: the value decoder\<close>

text \<open>
  C9, as amended. \<^verbatim>\<open>traceValueFromJSON\<close> is defined on every value of the raw schema (the
  type \<open>JSONTraceValueType\<close>; none of its operations can raise there). A boolean, a number
  and a string decode to the string \<^verbatim>\<open>String(raw)\<close>, whatever \<^verbatim>\<open>String\<close> gives for the
  number; an array decodes element by element; a compound decodes to a compound with
  \<^verbatim>\<open>type\<close>, \<^verbatim>\<open>variant_name\<close> and \<^verbatim>\<open>variant_tag\<close> copied and with as many fields, each a
  key of the input with its decoded value, in the order of \<^verbatim>\<open>Object.entries\<close>: the keys
  that are array indices first, in ascending numeric order, then the other keys in the
  declared order. The declared order of all fields is kept when no key is an array
  index.
\<close>

theorem traceValueFromJSON_decodes:
  "traceValueFromJSON str (JBoolean b) = RString (if b then ''true'' else ''false'') \<and>
   traceValueFromJSON str (JNumber n) = RString (str n) \<and>
   traceValueFromJSON str (JString s) = RString s \<and>
   traceValueFromJSON str (JArray items) = RArray (map (traceValueFromJSON str) items) \<and>
   (\<exists>fs. traceValueFromJSON str (JCompound flds ty variant_name variant_tag) =
            RCompound fs ty variant_name variant_tag \<and>
          fs = map (\<lambda>(key, v). (key, traceValueFromJSON str v)) (Object_entries flds) \<and>
          length fs = length flds \<and>
          map fst fs =
            sort_key digits_value (filter is_array_index (map fst flds)) @
            filter (\<lambda>key. \<not> is_array_index key) (map fst flds) \<and>
          ((\<forall>key\<in>fst ` set flds. \<not> is_array_index key) \<longrightarrow>
             (\<forall>i<length flds.
                fs ! i = (fst (flds ! i), traceValueFromJSON str (snd (flds ! i))))))"
proof -
  let ?fs = "map (\<lambda>(key, v). (key, traceValueFromJSON str v)) (Object_entries flds)"
  have keys: "map fst ?fs = map fst (Object_entries flds)"
    by (simp add: case_prod_unfold comp_def)
  have plain: "?fs ! i = (fst (flds ! i), traceValueFromJSON str (snd (flds ! i)))"
    if "\<forall>key\<in>fst ` set flds. \<not> is_array_index key" and "i < length flds" for i
    using that by (simp add: Object_entries_plain case_prod_unfold)
  have "traceValueFromJSON str (JCompound flds ty variant_name variant_tag) =
      RCompound ?fs ty variant_name variant_tag"
    by simp
  moreover have "length ?fs = length flds"
    by (simp add: length_Object_entries)
  moreover note keys keys_Object_entries [of flds] plain
  ultimately show ?thesis
    by (simp add: String_boolean_def)
qed

theorem traceValueFromJSON_decodes_witness:
  "traceValueFromJSON String_number
     (JCompound [(''b'', JNumber 7), (''a'', JArray [JBoolean True, JString ''x''])]
        ''0x1::m::S'' (Some ''V'') (Some 1)) =
   RCompound [(''b'', RString ''7''), (''a'', RArray [RString ''true'', RString ''x''])]
     ''0x1::m::S'' (Some ''V'') (Some 1)"
proof -
  let ?flds = "[(''b'', JNumber (7::int)), (''a'', JArray [JBoolean True, JString ''x''])]"
  have h: "\<forall>key\<in>fst ` set ?flds. \<not> is_array_index key"
    by code_simp
  from traceValueFromJSON_decodes [of String_number True 7 "''x''"
      "[JBoolean True, JString ''x'']" ?flds "''0x1::m::S''" "Some ''V''" "Some 1"] h
  obtain fs where dec: "traceValueFromJSON String_number
        (JCompound ?flds ''0x1::m::S'' (Some ''V'') (Some 1)) =
      RCompound fs ''0x1::m::S'' (Some ''V'') (Some 1)"
    and len: "length fs = length ?flds"
    and nth: "\<forall>i<length ?flds.
        fs ! i = (fst (?flds ! i), traceValueFromJSON String_number (snd (?flds ! i)))"
    by blast
  have seven: "String_number 7 = ''7''"
    by code_simp
  from nth have "fs ! 0 = (''b'', RString ''7'')"
    and "fs ! 1 = (''a'', RArray [RString ''true'', RString ''x''])"
    using seven by (simp_all add: String_boolean_def)
  with len have "fs = [(''b'', RString ''7''), (''a'', RArray [RString ''true'', RString ''x''])]"
    by (cases fs; cases "tl fs") auto
  with dec show ?thesis
    by simp
qed

text \<open>
  The claim as stated fails: the fields declared in the order \<^verbatim>\<open>b\<close>, \<^verbatim>\<open>2\<close>, \<^verbatim>\<open>a\<close>,
  \<^verbatim>\<open>1\<close> are decoded in the order \<^verbatim>\<open>1\<close>, \<^verbatim>\<open>2\<close>, \<^verbatim>\<open>b\<close>, \<^verbatim>\<open>a\<close>.
\<close>

theorem field_order_counterexample:
  "traceValueFromJSON String_number
     (JCompound [(''b'', JNumber 1), (''2'', JNumber 2), (''a'', JNumber 3), (''1'', JNumber 4)]
        ''0x1::m::S'' None None) =
   RCompound [(''1'', RString ''4''), (''2'', RString ''2''), (''b'', RString ''1''),
              (''a'', RString ''3'')]
     ''0x1::m::S'' None None"
  by code_simp

subsection \<open>C10: the frame of a canonical write event\<close>

text \<open>
  C10. Every canonical \<^verbatim>\<open>Write\<close> event that an iteration appends carries as frame
  identifier the top of \<^verbatim>\<open>frameIDs\<close> at that moment (the topmost open frame when one
  is open), also when the \<^verbatim>\<open>Local\<close> location of the raw effect names another frame;
  the row whose slot the effect resets to the alive-sentinel is the row of the frame
  named in the raw location, and no other row changes.
\<close>

theorem write_event_frame:
  assumes "EvEffect (EffWrite (LocLocal g s) v) \<in> set (emitted fl str st e)"
  shows "g = currentFrameID (frameIDs st) \<and>
         (frameIDs st \<noteq> [] \<longrightarrow> g = Some (last (frameIDs st))) \<and>
         (\<exists>eff w. Effect e = Some eff \<and> Write eff = Some w \<and>
            (\<forall>f i. write_location w = Local f i \<longrightarrow>
               i = s \<and> endOfLife (step fl str st e) (Some f) s = Some fl \<and>
               (\<forall>h j. h \<noteq> Some f \<longrightarrow> endOfLife (step fl str st e) h j = endOfLife st h j)))"
proof -
  from assms have no_open: "OpenFrame e = None"
    by (cases "OpenFrame e") (auto simp: emitted_cases)
  from assms no_open have no_close: "CloseFrame e = None"
    by (cases "CloseFrame e") (auto simp: emitted_cases)
  from assms no_open no_close have no_instr: "Instruction e = None"
    by (cases "Instruction e") (auto simp: emitted_cases)
  from assms no_open no_close no_instr obtain eff where eff: "Effect e = Some eff"
    by (cases "Effect e") (auto simp: emitted_cases)
  from assms no_open no_close no_instr eff obtain w where w: "Write eff = Some w"
    by (cases "Write eff") (auto simp: emitted_cases)
  note ev = no_open no_close no_instr eff w
  from assms ev have res: "fst (processJSONLocation fl (write_location w) (localLifetimeEnds st)
                (currentFrameID (frameIDs st))) = Some s"
    and g: "g = currentFrameID (frameIDs st)"
    by (auto simp: emitted_cases split: option.splits)
  have loc: "effect_location eff = write_location w"
    using ev(5) by (simp add: effect_location_def)
  have wr: "Write eff \<noteq> None \<or> Read eff \<noteq> None"
    using ev(5) by simp
  have row: "i = s \<and> endOfLife (step fl str st e) (Some f) s = Some fl \<and>
      (\<forall>h j. h \<noteq> Some f \<longrightarrow> endOfLife (step fl str st e) h j = endOfLife st h j)"
    if "write_location w = Local f i" for f i
  proof -
    from that res have "i = s"
      by (simp add: processJSONLocation_def)
    moreover have "location_frame (effect_location eff) = Some f"
      using that loc by (simp add: location_frame_def)
    from step_Effect_resolved(1) [OF ev(1-4) wr _ this, of fl st s str] res loc
    have "localLifetimeEnds (step fl str st e) =
           (localLifetimeEnds st)
             (Some f \<mapsto> js_set (get_or_empty (localLifetimeEnds st) (Some f)) s fl)"
      by simp
    then have "endOfLife (step fl str st e) (Some f) s = Some fl"
      and "\<forall>h j. h \<noteq> Some f \<longrightarrow> endOfLife (step fl str st e) h j = endOfLife st h j"
      by (simp_all add: endOfLife_def get_or_empty_def js_get_js_set)
    ultimately show ?thesis
      by blast
  qed
  from g ev row show ?thesis
    by (auto simp: currentFrameID_def)
qed

theorem write_event_frame_witness:
  "EvEffect (EffWrite (LocLocal (Some 2) 0) (Runtime (RString ''43''))) \<in>
     set (emitted (- 1) String_number
       (process_events (- 1) String_number init [open_frame_event 1 [JNumber 42], open_frame_event 2 []])
       (write_event (Local 1 0) (JNumber 43))) \<and>
   Some 2 = currentFrameID (frameIDs
       (process_events (- 1) String_number init [open_frame_event 1 [JNumber 42], open_frame_event 2 []])) \<and>
   endOfLife (step (- 1) String_number
       (process_events (- 1) String_number init [open_frame_event 1 [JNumber 42], open_frame_event 2 []])
       (write_event (Local 1 0) (JNumber 43))) (Some 1) 0 = Some (- 1) \<and>
   endOfLife (step (- 1) String_number
       (process_events (- 1) String_number init [open_frame_event 1 [JNumber 42], open_frame_event 2 []])
       (write_event (Local 1 0) (JNumber 43))) (Some 2) 0 =
   endOfLife
       (process_events (- 1) String_number init [open_frame_event 1 [JNumber 42], open_frame_event 2 []])
       (Some 2) 0"
proof -
  let ?st = "process_events (- 1) String_number init [open_frame_event 1 [JNumber 42], open_frame_event 2 []]"
  let ?e = "write_event (Local 1 0) (JNumber (43::int))"
  have h: "EvEffect (EffWrite (LocLocal (Some 2) 0) (Runtime (RString ''43''))) \<in>
     set (emitted (- 1) String_number ?st ?e)"
    by code_simp
  have w: "Effect ?e = Some (no_effect\<lparr>Write := Some \<lparr>write_location = Local 1 0,
                 root_value_after_write = json_value (JNumber (43::int))\<rparr>\<rparr>)"
    by (simp add: write_event_def no_event_def)
  from write_event_frame [OF h] have top: "Some 2 = currentFrameID (frameIDs ?st)"
    by (rule conjunct1)
  from write_event_frame [OF h] w
  have row: "endOfLife (step (- 1) String_number ?st ?e) (Some 1) 0 = Some (- 1) \<and>
        (\<forall>h j. h \<noteq> Some 1 \<longrightarrow> endOfLife (step (- 1) String_number ?st ?e) h j = endOfLife ?st h j)"
    by (auto simp: no_effect_def)
  then have other: "endOfLife (step (- 1) String_number ?st ?e) (Some 2) 0 = endOfLife ?st (Some 2) 0"
    by simp
  show ?thesis
    by (intro conjI) (rule h, rule top, rule conjunct1 [OF row], rule other)
qed

end
